theory Spec2Isabelle
  imports Main "HOL-Library.Word" "HOL-Library.Product_Lexorder"
begin

section \<open>Molecules, atoms and the external collaborators\<close>

text \<open>
  The development follows \<^verbatim>\<open>Code/GraphMol/MolStandardize/Charge.cpp\<close>: the
  \<^verbatim>\<open>Reionizer\<close> (charge corrections, deficit compensation, proton balancing) and the
  \<^verbatim>\<open>Uncharger\<close>. The molecular graph, the substructure matcher, the canonical ranker
  and the periodic table are used by that file but defined elsewhere; they enter
  the model as the fields of an environment record, so that every statement
  proved for an arbitrary environment holds for each implementation of them.
\<close>

datatype error =
    IndexOutOfRange    \<comment> \<open>\<^verbatim>\<open>getAtomWithIdx\<close>, \<^verbatim>\<open>operator[]\<close> or a bitset access beyond the size\<close>
  | EmptyMatch         \<comment> \<open>\<^verbatim>\<open>back()\<close>, \<^verbatim>\<open>front()\<close> or \<^verbatim>\<open>[0]\<close> on a match without atoms\<close>

text \<open>
  Modelled from the spec: the molecular graph (\<^verbatim>\<open>ROMol\<close>, \<^verbatim>\<open>RWMol\<close> and \<^verbatim>\<open>Bond\<close> are not
  among the sources). A molecule is the vector of its atoms, addressed by index,
  and the list of its bonds.
\<close>

datatype bond_type = SINGLE | DOUBLE | TRIPLE | AROMATIC

record bond =
  beginAtomIdx :: nat
  endAtomIdx :: nat
  bondType :: bond_type

text \<open>
  Modelled from the spec: the atom type (\<^verbatim>\<open>Atom.h\<close> is not among the sources). An atom
  exposes its atomic number, an integer formal charge, the explicit hydrogen
  count, the no-implicit flag, the aromaticity flag, and the cached
  valence state (explicit and implicit valence) that \<^verbatim>\<open>updatePropertyCache\<close>
  refreshes. The formal charge is an integer and the hydrogen count a natural
  number, as the spec has them; the width of the fields of \<^verbatim>\<open>Atom\<close> is not modelled.
\<close>

record atom =
  atomicNum :: nat
  formalCharge :: int
  numExplicitHs :: nat
  noImplicit :: bool
  isAromatic :: bool
  explicitValence :: int
  implicitValence :: int

record molecule =
  atoms :: "atom list"
  bonds :: "bond list"

type_synonym MatchVectType = "(nat \<times> nat) list"
  \<comment> \<open>pairs (query atom index, molecule atom index)\<close>

text \<open>
  Modelled from the spec: the collaborators, as parameters (their code is not
  among the sources). \<open>SubstructMatch\<close> is the overload that collects every
  match, \<open>SubstructMatch1\<close> the overload that reports whether there is a match
  and fills in one. The two valence functions are what
  \<^verbatim>\<open>Atom::updatePropertyCache\<close> computes for the atom at an index.
\<close>

record 'p env =
  SubstructMatch :: "molecule \<Rightarrow> 'p \<Rightarrow> MatchVectType list"
  SubstructMatch1 :: "molecule \<Rightarrow> 'p \<Rightarrow> MatchVectType option"
  calcExplicitValence :: "molecule \<Rightarrow> nat \<Rightarrow> int"
  calcImplicitValence :: "molecule \<Rightarrow> nat \<Rightarrow> int"
  getValenceList :: "nat \<Rightarrow> int list"
  isEarlyAtom :: "nat \<Rightarrow> bool"
  rankMolAtoms :: "molecule \<Rightarrow> nat list"

definition getNumAtoms :: "molecule \<Rightarrow> nat" where
  "getNumAtoms mol = length (atoms mol)"

definition getAtomWithIdx :: "molecule \<Rightarrow> nat \<Rightarrow> error + atom" where
  "getAtomWithIdx mol idx =
     (if idx < getNumAtoms mol then Inr (atoms mol ! idx) else Inl IndexOutOfRange)"

text \<open>
  A pointer \<^verbatim>\<open>Atom *atom\<close> obtained from \<^verbatim>\<open>getAtomWithIdx\<close> is the index; a setter
  called through it rewrites that position of the atom vector.
\<close>

definition updAtom :: "molecule \<Rightarrow> nat \<Rightarrow> (atom \<Rightarrow> atom) \<Rightarrow> molecule" where
  "updAtom mol idx f = mol\<lparr>atoms := (atoms mol)[idx := f (atoms mol ! idx)]\<rparr>"

text \<open>
  Modelled from the spec: the derived hydrogen and valence accessors of an atom
  (\<^verbatim>\<open>Atom.cpp\<close> is not among the sources). An atom whose no-implicit flag is set
  has no implicit hydrogens; otherwise the count is the cached implicit valence.
  The accessors are total: both entry points refresh the valence state before
  they read it, when it is missing.
\<close>

definition getNumImplicitHs :: "atom \<Rightarrow> nat" where
  "getNumImplicitHs a = (if noImplicit a then 0 else nat (implicitValence a))"

definition getTotalNumHs :: "atom \<Rightarrow> nat" where
  "getTotalNumHs a = numExplicitHs a + getNumImplicitHs a"

definition getTotalValence :: "atom \<Rightarrow> int" where
  "getTotalValence a = explicitValence a + implicitValence a"

text \<open>
  Modelled from the spec: refreshing the cached valence state of one atom and of
  the whole molecule, and the test whether a refresh is due. Only the two cached
  fields change, and the refresh always succeeds: the spec lists it among the
  primitives of the molecule without a failure.
\<close>

definition atomUpdatePropertyCache :: "'p env \<Rightarrow> molecule \<Rightarrow> nat \<Rightarrow> molecule" where
  "atomUpdatePropertyCache env mol idx =
     updAtom mol idx (\<lambda>a. a\<lparr>explicitValence := calcExplicitValence env mol idx,
                             implicitValence := calcImplicitValence env mol idx\<rparr>)"

definition atomNeedsUpdatePropertyCache :: "atom \<Rightarrow> bool" where
  "atomNeedsUpdatePropertyCache a =
     (explicitValence a < 0 \<or> (\<not> noImplicit a \<and> implicitValence a < 0))"

definition needsUpdatePropertyCache :: "molecule \<Rightarrow> bool" where
  "needsUpdatePropertyCache mol = list_ex atomNeedsUpdatePropertyCache (atoms mol)"

definition updatePropertyCache :: "'p env \<Rightarrow> molecule \<Rightarrow> molecule" where
  "updatePropertyCache env mol = foldl (atomUpdatePropertyCache env) mol [0..<getNumAtoms mol]"

text \<open>
  Modelled from the spec: the sum of the formal charges (\<^verbatim>\<open>MolOps::getFormalCharge\<close>)
  and the neighbour iteration, which follows the bond list; a bond end that is
  not an atom of the molecule is no edge of the graph.
\<close>

definition getFormalCharge :: "molecule \<Rightarrow> int" where
  "getFormalCharge mol = sum_list (map formalCharge (atoms mol))"

definition getAtomNeighbors :: "molecule \<Rightarrow> nat \<Rightarrow> nat list" where
  "getAtomNeighbors mol idx =
     filter (\<lambda>j. j < getNumAtoms mol)
       (concat (map (\<lambda>b. if beginAtomIdx b = idx then [endAtomIdx b]
                          else if endAtomIdx b = idx then [beginAtomIdx b] else [])
                    (bonds mol)))"

section \<open>Reionizer\<close>

subsection \<open>The two catalog scans\<close>

text \<open>
  The catalog \<^verbatim>\<open>abpairs\<close> is a vector of pairs (protonated pattern, ionized
  pattern). Each scan walks it with a position counter and returns at the first
  match; the null pointer is \<open>None\<close>. In \<open>weakestIonized\<close> the position counts from
  the back, and \<^verbatim>\<open>abpairs.size() - position - 1\<close> never wraps because the position
  stays below the size.
\<close>

fun strongestProtonated_scan ::
  "'p env \<Rightarrow> molecule \<Rightarrow> nat \<Rightarrow> ('p \<times> 'p) list \<Rightarrow> (nat \<times> nat list) option" where
  "strongestProtonated_scan env mol position [] = None"
| "strongestProtonated_scan env mol position (abpair # rest) =
     (case SubstructMatch1 env mol (fst abpair) of
        Some res \<Rightarrow> Some (position, map snd res)
      | None \<Rightarrow> strongestProtonated_scan env mol (position + 1) rest)"

definition strongestProtonated ::
  "'p env \<Rightarrow> molecule \<Rightarrow> ('p \<times> 'p) list \<Rightarrow> (nat \<times> nat list) option" where
  "strongestProtonated env mol abpairs = strongestProtonated_scan env mol 0 abpairs"

fun weakestIonized_scan ::
  "'p env \<Rightarrow> molecule \<Rightarrow> nat \<Rightarrow> nat \<Rightarrow> ('p \<times> 'p) list \<Rightarrow> (nat \<times> nat list) option" where
  "weakestIonized_scan env mol n_pairs position [] = None"
| "weakestIonized_scan env mol n_pairs position (abpair # rest) =
     (case SubstructMatch1 env mol (snd abpair) of
        Some res \<Rightarrow> Some (n_pairs - position - 1, map snd res)
      | None \<Rightarrow> weakestIonized_scan env mol n_pairs (position + 1) rest)"

definition weakestIonized ::
  "'p env \<Rightarrow> molecule \<Rightarrow> ('p \<times> 'p) list \<Rightarrow> (nat \<times> nat list) option" where
  "weakestIonized env mol abpairs =
     weakestIonized_scan env mol (length abpairs) 0 (rev abpairs)"

subsection \<open>Charge corrections\<close>

record 'p ChargeCorrection =
  Name :: string
  Smarts :: 'p
  Charge :: int

text \<open>
  A \<^verbatim>\<open>for\<close> loop whose body may throw: the first error ends the loop.
\<close>

fun efold :: "('s \<Rightarrow> 'a \<Rightarrow> error + 's) \<Rightarrow> 's \<Rightarrow> 'a list \<Rightarrow> error + 's" where
  "efold f s [] = Inr s"
| "efold f s (x # xs) = (case f s x of Inl e \<Rightarrow> Inl e | Inr s' \<Rightarrow> efold f s' xs)"

definition setFormalChargeAt :: "int \<Rightarrow> molecule \<Rightarrow> nat \<times> nat \<Rightarrow> error + molecule" where
  "setFormalChargeAt c mol pair =
     (case getAtomWithIdx mol (snd pair) of
        Inl e \<Rightarrow> Inl e
      | Inr _ \<Rightarrow> Inr (updAtom mol (snd pair) (\<lambda>a. a\<lparr>formalCharge := c\<rparr>)))"

definition applyChargeCorrection ::
  "'p env \<Rightarrow> molecule \<Rightarrow> 'p ChargeCorrection \<Rightarrow> error + molecule" where
  "applyChargeCorrection env mol cc =
     (let res = SubstructMatch env mol (Smarts cc) in
      if length res \<noteq> 0
      then efold (\<lambda>m match. efold (setFormalChargeAt (Charge cc)) m match) mol res
      else Inr mol)"

subsection \<open>Deficit compensation\<close>

definition ionizeSite :: "'p env \<Rightarrow> molecule \<Rightarrow> nat \<Rightarrow> error + molecule" where
  "ionizeSite env mol idx =
     (case getAtomWithIdx mol idx of
        Inl e \<Rightarrow> Inl e
      | Inr _ \<Rightarrow>
          let mol1 = updAtom mol idx (\<lambda>a. a\<lparr>formalCharge := formalCharge a - 1\<rparr>);
              mol2 = (if numExplicitHs (atoms mol1 ! idx) > 0
                      then updAtom mol1 idx (\<lambda>a. a\<lparr>numExplicitHs := numExplicitHs a - 1\<rparr>)
                      else mol1)
          in Inr (atomUpdatePropertyCache env mol2 idx))"

text \<open>
  \<^verbatim>\<open>while (charge_diff > 0)\<close> with its \<^verbatim>\<open>break\<close> on a null scan result. The function
  returns the molecule together with the outstanding \<^verbatim>\<open>charge_diff\<close>.
\<close>

function deficit_loop ::
  "'p env \<Rightarrow> ('p \<times> 'p) list \<Rightarrow> molecule \<Rightarrow> int \<Rightarrow> error + (molecule \<times> int)" where
  "deficit_loop env abpairs mol charge_diff =
     (if charge_diff > 0 then
        (case strongestProtonated env mol abpairs of
           None \<Rightarrow> Inr (mol, charge_diff)
         | Some (ppos, poccur) \<Rightarrow>
             if poccur = [] then Inl EmptyMatch
             else (case ionizeSite env mol (last poccur) of
                     Inl e \<Rightarrow> Inl e
                   | Inr mol' \<Rightarrow> deficit_loop env abpairs mol' (charge_diff - 1)))
      else Inr (mol, charge_diff))"
  by pat_completeness auto
termination
  by (relation "measure (\<lambda>(env, abpairs, mol, charge_diff). nat charge_diff)") auto

declare deficit_loop.simps [simp del]

definition deficit_phase ::
  "'p env \<Rightarrow> ('p \<times> 'p) list \<Rightarrow> molecule \<Rightarrow> int \<Rightarrow> int \<Rightarrow> error + (molecule \<times> int)" where
  "deficit_phase env abpairs mol current_charge charge_diff =
     (if current_charge \<noteq> 0 then deficit_loop env abpairs mol charge_diff
      else Inr (mol, charge_diff))"

subsection \<open>Proton balancing\<close>

text \<open>
  The key of \<^verbatim>\<open>already_moved\<close> is the two-element vector of the site indices after
  \<^verbatim>\<open>std::sort\<close>.
\<close>

definition sorted_key :: "nat \<Rightarrow> nat \<Rightarrow> nat \<times> nat" where
  "sorted_key a b = (min a b, max a b)"

definition proton_transfer :: "'p env \<Rightarrow> molecule \<Rightarrow> nat \<Rightarrow> nat \<Rightarrow> error + molecule" where
  "proton_transfer env mol p i =
     (case getAtomWithIdx mol p of
        Inl e \<Rightarrow> Inl e
      | Inr _ \<Rightarrow>
          let mol1 = updAtom mol p (\<lambda>a. a\<lparr>formalCharge := formalCharge a - 1\<rparr>);
              mol2 = (if getNumImplicitHs (atoms mol1 ! p) = 0 \<and> numExplicitHs (atoms mol1 ! p) > 0
                      then updAtom mol1 p (\<lambda>a. a\<lparr>numExplicitHs := numExplicitHs a - 1\<rparr>)
                      else mol1);
              mol3 = atomUpdatePropertyCache env mol2 p
          in (case getAtomWithIdx mol3 i of
               Inl e \<Rightarrow> Inl e
             | Inr _ \<Rightarrow>
                 let mol4 = updAtom mol3 i (\<lambda>a. a\<lparr>formalCharge := formalCharge a + 1\<rparr>);
                     iatom = atoms mol4 ! i;
                     patom = atoms mol4 ! p;
                     valence_list = getValenceList env (atomicNum iatom);
                     found = (getTotalValence iatom \<in> set valence_list);
                     mol5 = (if noImplicit iatom \<or>
                                ((atomicNum patom = 7 \<or> atomicNum patom = 15) \<and> isAromatic patom) \<or>
                                \<not> found
                             then updAtom mol4 i (\<lambda>a. a\<lparr>numExplicitHs := numExplicitHs a + 1\<rparr>)
                             else mol4)
                 in Inr (atomUpdatePropertyCache env mol5 i)))"

datatype balance_step = Stop | Moved molecule "(nat \<times> nat) set"

text \<open>
  One pass through the body of \<^verbatim>\<open>while (true)\<close>: \<open>Stop\<close> is a \<^verbatim>\<open>break\<close>, \<open>Moved\<close> the
  end of the body after a transfer, with the molecule and the set as they are then.
\<close>

definition balancing_step ::
  "'p env \<Rightarrow> ('p \<times> 'p) list \<Rightarrow> molecule \<Rightarrow> (nat \<times> nat) set \<Rightarrow> error + balance_step" where
  "balancing_step env abpairs mol already_moved =
     (case strongestProtonated env mol abpairs of
        None \<Rightarrow> Inr Stop
      | Some (ppos, poccur) \<Rightarrow>
          (case weakestIonized env mol abpairs of
             None \<Rightarrow> Inr Stop
           | Some (ipos, ioccur) \<Rightarrow>
               if ppos < ipos then
                 (if poccur = [] \<or> ioccur = [] then Inl EmptyMatch
                  else if last poccur = last ioccur then Inr Stop
                  else let key = sorted_key (last poccur) (last ioccur) in
                    if key \<in> already_moved then Inr Stop
                    else (case proton_transfer env mol (last poccur) (last ioccur) of
                            Inl e \<Rightarrow> Inl e
                          | Inr mol' \<Rightarrow> Inr (Moved mol' (insert key already_moved))))
               else Inr Stop))"

definition all_pairs :: "nat \<Rightarrow> (nat \<times> nat) set" where
  "all_pairs n = {(a, b). a < b \<and> b < n}"

lemma getNumAtoms_updAtom [simp]: "getNumAtoms (updAtom mol idx f) = getNumAtoms mol"
  by (simp add: getNumAtoms_def updAtom_def)

lemma getNumAtoms_atomUpdatePropertyCache [simp]:
  "getNumAtoms (atomUpdatePropertyCache env mol idx) = getNumAtoms mol"
  by (simp add: atomUpdatePropertyCache_def)

lemma proton_transfer_Inr:
  assumes "proton_transfer env mol p i = Inr mol'"
  shows "getNumAtoms mol' = getNumAtoms mol \<and> p < getNumAtoms mol \<and> i < getNumAtoms mol"
  using assms
  by (auto simp: proton_transfer_def getAtomWithIdx_def Let_def split: if_splits sum.splits)

lemma finite_all_pairs [simp]: "finite (all_pairs n)"
proof -
  have "all_pairs n \<subseteq> {..<n} \<times> {..<n}" by (auto simp: all_pairs_def)
  then show ?thesis by (rule finite_subset) simp
qed

lemma sorted_key_in_all_pairs:
  "a \<noteq> b \<Longrightarrow> a < n \<Longrightarrow> b < n \<Longrightarrow> sorted_key a b \<in> all_pairs n"
  by (auto simp: sorted_key_def all_pairs_def min_def max_def)

lemma balancing_step_MovedD:
  assumes "balancing_step env abpairs mol moved = Inr (Moved mol' moved')"
  shows "\<exists>ppos poccur ipos ioccur.
           strongestProtonated env mol abpairs = Some (ppos, poccur) \<and>
           weakestIonized env mol abpairs = Some (ipos, ioccur) \<and>
           ppos < ipos \<and> poccur \<noteq> [] \<and> ioccur \<noteq> [] \<and> last poccur \<noteq> last ioccur \<and>
           sorted_key (last poccur) (last ioccur) \<notin> moved \<and>
           moved' = insert (sorted_key (last poccur) (last ioccur)) moved \<and>
           proton_transfer env mol (last poccur) (last ioccur) = Inr mol'"
  using assms
  by (auto simp: balancing_step_def Let_def split: option.splits if_splits sum.splits prod.splits)

lemma balancing_step_Moved:
  assumes "balancing_step env abpairs mol moved = Inr (Moved mol' moved')"
  shows "getNumAtoms mol' = getNumAtoms mol \<and>
         (\<exists>k. k \<in> all_pairs (getNumAtoms mol) \<and> k \<notin> moved \<and> moved' = insert k moved)"
proof -
  from balancing_step_MovedD[OF assms] obtain p i where
    pi: "p \<noteq> i" "sorted_key p i \<notin> moved" "moved' = insert (sorted_key p i) moved"
        "proton_transfer env mol p i = Inr mol'"
    by blast
  from proton_transfer_Inr[OF pi(4)] have
    n: "getNumAtoms mol' = getNumAtoms mol" "p < getNumAtoms mol" "i < getNumAtoms mol"
    by simp_all
  from sorted_key_in_all_pairs[OF pi(1) n(2,3)] pi n show ?thesis by blast
qed

text \<open>
  The \<^verbatim>\<open>while (true)\<close> loop. Its termination rests on the set \<^verbatim>\<open>already_moved\<close>: a pass
  that does not break adds a new pair of two different atom indices of the
  molecule, and the number of atoms does not change. The counter \<open>transfers\<close> is
  not in the source; it counts the passes that performed a transfer. The result
  is the outcome (the molecule, or the error that ended the loop) together with
  the set and the counter as they are then.
\<close>

function balancing_loop ::
  "'p env \<Rightarrow> ('p \<times> 'p) list \<Rightarrow> molecule \<Rightarrow> (nat \<times> nat) set \<Rightarrow> nat \<Rightarrow>
     (error + molecule) \<times> (nat \<times> nat) set \<times> nat" where
  "balancing_loop env abpairs mol already_moved transfers =
     (case balancing_step env abpairs mol already_moved of
        Inl e \<Rightarrow> (Inl e, already_moved, transfers)
      | Inr Stop \<Rightarrow> (Inr mol, already_moved, transfers)
      | Inr (Moved mol' moved') \<Rightarrow> balancing_loop env abpairs mol' moved' (transfers + 1))"
  by pat_completeness auto
termination
proof (relation "measure (\<lambda>(env, abpairs, mol, moved, n). card (all_pairs (getNumAtoms mol) - moved))")
  show "wf (measure (\<lambda>(env::'p env, abpairs::('p \<times> 'p) list, mol, moved, n::nat). card (all_pairs (getNumAtoms mol) - moved)))"
    by simp
next
  fix env :: "'p env" and abpairs mol already_moved and transfers :: nat and x2 mol' moved'
  assume "balancing_step env abpairs mol already_moved = Inr x2" "x2 = Moved mol' moved'"
  then have st: "balancing_step env abpairs mol already_moved = Inr (Moved mol' moved')" by simp
  from balancing_step_Moved[OF st] obtain k where
    n: "getNumAtoms mol' = getNumAtoms mol" and
    k: "k \<in> all_pairs (getNumAtoms mol)" "k \<notin> already_moved" "moved' = insert k already_moved"
    by blast
  have "all_pairs (getNumAtoms mol) - insert k already_moved \<subset> all_pairs (getNumAtoms mol) - already_moved"
    using k by auto
  then have "card (all_pairs (getNumAtoms mol) - insert k already_moved) < card (all_pairs (getNumAtoms mol) - already_moved)"
    by (intro psubset_card_mono) simp_all
  then show "((env, abpairs, mol', moved', transfers + 1), env, abpairs, mol, already_moved, transfers)
       \<in> measure (\<lambda>(env, abpairs, mol, moved, n). card (all_pairs (getNumAtoms mol) - moved))"
    using n k by simp
qed

declare balancing_loop.simps [simp del]

lemma card_all_pairs: "card (all_pairs n) = n * (n - 1) div 2"
proof (induction n)
  case 0
  then show ?case by (simp add: all_pairs_def)
next
  case (Suc n)
  have eq: "all_pairs (Suc n) = all_pairs n \<union> (\<lambda>a. (a, n)) ` {..<n}"
    by (auto simp: all_pairs_def less_Suc_eq)
  have disj: "all_pairs n \<inter> (\<lambda>a. (a, n)) ` {..<n} = {}"
    by (auto simp: all_pairs_def)
  have c: "card ((\<lambda>a. (a, n)) ` {..<n}) = n"
    by (simp add: card_image inj_on_def)
  have "card (all_pairs (Suc n)) = card (all_pairs n) + n"
    unfolding eq using disj c by (subst card_Un_disjoint) simp_all
  also have "\<dots> = n * (n - 1) div 2 + n" using Suc by simp
  also have "\<dots> = Suc n * (Suc n - 1) div 2"
    by (cases n) (simp_all add: algebra_simps)
  finally show ?case .
qed

definition applyChargeCorrections ::
  "'p env \<Rightarrow> 'p ChargeCorrection list \<Rightarrow> molecule \<Rightarrow> error + molecule" where
  "applyChargeCorrections env ccs mol = efold (applyChargeCorrection env) mol ccs"

text \<open>
  \<^verbatim>\<open>Reionizer::reionizeInPlace\<close>: the catalog \<^verbatim>\<open>d_abcat\<close> and the corrections \<^verbatim>\<open>d_ccs\<close> of
  the object are the arguments \<open>abpairs\<close> and \<open>ccs\<close>.
\<close>

definition reionizeInPlace ::
  "'p env \<Rightarrow> ('p \<times> 'p) list \<Rightarrow> 'p ChargeCorrection list \<Rightarrow> molecule \<Rightarrow> error + molecule" where
  "reionizeInPlace env abpairs ccs mol =
     (let mol0 = (if needsUpdatePropertyCache mol then updatePropertyCache env mol else mol);
          start_charge = getFormalCharge mol0
      in case applyChargeCorrections env ccs mol0 of
           Inl e \<Rightarrow> Inl e
         | Inr mol1 \<Rightarrow>
             let current_charge = getFormalCharge mol1;
                 charge_diff = current_charge - start_charge
             in (case deficit_phase env abpairs mol1 current_charge charge_diff of
                   Inl e \<Rightarrow> Inl e
                 | Inr (mol2, _) \<Rightarrow>
                     fst (balancing_loop env abpairs mol2 {} 0)))"

section \<open>Uncharger\<close>

text \<open>
  The four patterns of the object and its two flags (\<^verbatim>\<open>df_canonicalOrdering\<close>,
  \<^verbatim>\<open>df_force\<close>).
\<close>

record 'p Uncharger =
  pos_h :: 'p
  pos_noh :: 'p
  neg :: 'p
  neg_acid :: 'p
  df_canonicalOrdering :: bool
  df_force :: bool

text \<open>
  \<^verbatim>\<open>neutralizeNeg\<close>: the new hydrogen count is computed in \<^verbatim>\<open>unsigned int\<close>, so a
  negative sum wraps.
\<close>

definition neutralizeNeg :: "'p env \<Rightarrow> molecule \<Rightarrow> nat \<Rightarrow> int \<Rightarrow> molecule" where
  "neutralizeNeg env mol idx hDelta =
     (let mol1 = updAtom mol idx
            (\<lambda>a. a\<lparr>numExplicitHs := nat ((int (getTotalNumHs a) + hDelta) mod 2 ^ 32)\<rparr>);
          mol2 = updAtom mol1 idx (\<lambda>a. a\<lparr>noImplicit := True\<rparr>);
          mol3 = updAtom mol2 idx (\<lambda>a. a\<lparr>formalCharge := formalCharge a + 1\<rparr>)
      in atomUpdatePropertyCache env mol3 idx)"

definition neutralizeNegIfPossible :: "'p env \<Rightarrow> molecule \<Rightarrow> nat \<Rightarrow> bool \<times> molecule" where
  "neutralizeNegIfPossible env mol idx =
     (let is_early_atom = isEarlyAtom env (atomicNum (atoms mol ! idx));
          has_hs = (getTotalNumHs (atoms mol ! idx) \<noteq> 0)
      in if is_early_atom \<and> \<not> has_hs then (False, mol)
         else let hDelta = (if is_early_atom then - 1 else 1)
              in (True, neutralizeNeg env mol idx hDelta))"

text \<open>
  \<^verbatim>\<open>q_matched\<close> is an \<^verbatim>\<open>unsigned int\<close> to which the formal charges are added.
\<close>

definition q_matched_step :: "molecule \<Rightarrow> 32 word \<Rightarrow> MatchVectType \<Rightarrow> error + 32 word" where
  "q_matched_step mol q match =
     (case match of
        [] \<Rightarrow> Inl EmptyMatch
      | pr # _ \<Rightarrow>
          (case getAtomWithIdx mol (snd pr) of
             Inl e \<Rightarrow> Inl e
           | Inr a \<Rightarrow> Inr (q + word_of_int (formalCharge a))))"

definition getRankIdxPair :: "nat list \<Rightarrow> MatchVectType \<Rightarrow> error + (nat \<times> nat)" where
  "getRankIdxPair atomRanks mv =
     (case mv of
        [] \<Rightarrow> Inl EmptyMatch
      | pr # _ \<Rightarrow>
          let aidx = snd pr
          in if aidx < length atomRanks then Inr (atomRanks ! aidx, aidx)
             else Inl IndexOutOfRange)"

text \<open>\<^verbatim>\<open>std::transform\<close> into a \<^verbatim>\<open>back_inserter\<close>, with a function that may fail.\<close>

definition transform_matches ::
  "nat list \<Rightarrow> MatchVectType list \<Rightarrow> error + (nat \<times> nat) list" where
  "transform_matches atomRanks matches =
     efold (\<lambda>acc mv. case getRankIdxPair atomRanks mv of
                        Inl e \<Rightarrow> Inl e
                      | Inr pair \<Rightarrow> Inr (acc @ [pair])) [] matches"

text \<open>
  The bitsets have one bit per atom. \<open>scan_neighbors\<close> is the loop over the
  neighbours of an acid atom, which ends at the first positively charged one.
\<close>

definition bit_reset :: "bool list \<Rightarrow> nat \<Rightarrow> error + bool list" where
  "bit_reset bits i = (if i < length bits then Inr (bits[i := False]) else Inl IndexOutOfRange)"

definition keep_nonAcid ::
  "bool list \<Rightarrow> (nat \<times> nat) list \<Rightarrow> nat \<times> nat \<Rightarrow> error + (nat \<times> nat) list" where
  "keep_nonAcid nonAcids acc pair =
     (if snd pair < length nonAcids
      then Inr (if \<not> nonAcids ! snd pair then acc else acc @ [pair])
      else Inl IndexOutOfRange)"

fun scan_neighbors :: "molecule \<Rightarrow> nat \<Rightarrow> bool list \<Rightarrow> nat list \<Rightarrow> bool list" where
  "scan_neighbors mol idx skipChargeSep [] = skipChargeSep"
| "scan_neighbors mol idx skipChargeSep (nbrIdx # rest) =
     (if formalCharge (atoms mol ! nbrIdx) > 0 then
        (if \<not> skipChargeSep ! nbrIdx then skipChargeSep[nbrIdx := True]
         else skipChargeSep[idx := True])
      else scan_neighbors mol idx skipChargeSep rest)"

definition skipChargeSep_step ::
  "molecule \<Rightarrow> bool list \<Rightarrow> nat \<times> nat \<Rightarrow> error + bool list" where
  "skipChargeSep_step mol skipChargeSep pair =
     (case getAtomWithIdx mol (snd pair) of
        Inl e \<Rightarrow> Inl e
      | Inr _ \<Rightarrow>
          Inr (scan_neighbors mol (snd pair) skipChargeSep (getAtomNeighbors mol (snd pair))))"

definition build_neg_atoms ::
  "molecule \<Rightarrow> (nat \<times> nat) list \<Rightarrow> (nat \<times> nat) list \<Rightarrow> error + (nat \<times> nat) list" where
  "build_neg_atoms mol n_atoms a_atoms =
     (case efold bit_reset (replicate (getNumAtoms mol) True) (map snd a_atoms) of
        Inl e \<Rightarrow> Inl e
      | Inr nonAcids \<Rightarrow>
          (case efold (keep_nonAcid nonAcids) [] n_atoms of
             Inl e \<Rightarrow> Inl e
           | Inr neg_atoms \<Rightarrow>
               (case efold (skipChargeSep_step mol) (replicate (getNumAtoms mol) False) a_atoms of
                  Inl e \<Rightarrow> Inl e
                | Inr skipChargeSep \<Rightarrow>
                    Inr (neg_atoms @ filter (\<lambda>pair. \<not> skipChargeSep ! snd pair) a_atoms))))"

text \<open>
  The loop that neutralizes the surplus: \<^verbatim>\<open>neg_surplus\<close> is decremented only after a
  successful neutralization, and the loop breaks when the decrement gives zero.
  The counter is an \<^verbatim>\<open>int\<close> that is only ever compared with zero.
\<close>

fun neutralize_surplus ::
  "'p env \<Rightarrow> molecule \<Rightarrow> 32 word \<Rightarrow> (nat \<times> nat) list \<Rightarrow> error + molecule" where
  "neutralize_surplus env mol neg_surplus [] = Inr mol"
| "neutralize_surplus env mol neg_surplus (pair # rest) =
     (case getAtomWithIdx mol (snd pair) of
        Inl e \<Rightarrow> Inl e
      | Inr _ \<Rightarrow>
          (case neutralizeNegIfPossible env mol (snd pair) of
             (True, mol') \<Rightarrow>
               if neg_surplus - 1 = 0 then Inr mol'
               else neutralize_surplus env mol' (neg_surplus - 1) rest
           | (False, mol') \<Rightarrow> neutralize_surplus env mol' neg_surplus rest))"

text \<open>
  The \<^verbatim>\<open>while\<close> loop on one cation. The atom pointer comes from \<^verbatim>\<open>getAtomWithIdx\<close>,
  so the index is one of the molecule.
\<close>

function neutralize_cation :: "'p env \<Rightarrow> molecule \<Rightarrow> nat \<Rightarrow> int \<Rightarrow> molecule \<times> int" where
  "neutralize_cation env mol idx netCharge =
     (if idx < getNumAtoms mol \<and> formalCharge (atoms mol ! idx) > 0 \<and> netCharge > 0 then
        let mol1 = updAtom mol idx (\<lambda>a. a\<lparr>formalCharge := formalCharge a - 1\<rparr>);
            netCharge1 = netCharge - 1
        in if atomicNum (atoms mol1 ! idx) \<noteq> 6 \<and> \<not> isEarlyAtom env (atomicNum (atoms mol1 ! idx)) then
             let nExplicit = numExplicitHs (atoms mol1 ! idx);
                 mol2 = (if nExplicit \<ge> 1
                         then updAtom mol1 idx (\<lambda>a. a\<lparr>numExplicitHs := nExplicit - 1\<rparr>)
                         else mol1)
             in if nExplicit = 1 then (mol2, netCharge1)
                else neutralize_cation env (atomUpdatePropertyCache env mol2 idx) idx netCharge1
           else
             let mol2 = updAtom mol1 idx (\<lambda>a. a\<lparr>numExplicitHs := numExplicitHs a + 1\<rparr>)
             in neutralize_cation env (atomUpdatePropertyCache env mol2 idx) idx netCharge1
      else (mol, netCharge))"
  by pat_completeness auto
termination
  by (relation "measure (\<lambda>(env, mol, idx, netCharge). nat (formalCharge (atoms mol ! idx)))")
     (auto simp: updAtom_def atomUpdatePropertyCache_def getNumAtoms_def)

declare neutralize_cation.simps [simp del]

fun neutralize_cations :: "'p env \<Rightarrow> molecule \<Rightarrow> int \<Rightarrow> nat list \<Rightarrow> error + molecule" where
  "neutralize_cations env mol netCharge [] = Inr mol"
| "neutralize_cations env mol netCharge (idx # rest) =
     (case getAtomWithIdx mol idx of
        Inl e \<Rightarrow> Inl e
      | Inr _ \<Rightarrow>
          let mol1 = updAtom mol idx (\<lambda>a. a\<lparr>numExplicitHs := getTotalNumHs a\<rparr>);
              mol2 = updAtom mol1 idx (\<lambda>a. a\<lparr>noImplicit := True\<rparr>)
          in (case neutralize_cation env mol2 idx netCharge of
                (mol3, netCharge') \<Rightarrow>
                  if netCharge' = 0 then Inr mol3
                  else neutralize_cations env mol3 netCharge' rest))"

text \<open>
  The transient values of one call up to the start of the neutralization: the
  matches, \<^verbatim>\<open>q_matched\<close>, the ranks, the ranked lists and the merged list
  \<^verbatim>\<open>neg_atoms\<close>.
\<close>

record accounting =
  p_matches :: "MatchVectType list"
  q_matched :: "32 word"
  needsNeutralization :: bool
  atomRanks :: "nat list"
  n_atoms :: "(nat \<times> nat) list"
  a_atoms :: "(nat \<times> nat) list"
  neg_atoms :: "(nat \<times> nat) list"

definition rank_and_sort ::
  "bool \<Rightarrow> nat list \<Rightarrow> MatchVectType list \<Rightarrow> error + (nat \<times> nat) list" where
  "rank_and_sort canonicalOrdering ranks matches =
     (case transform_matches ranks matches of
        Inl e \<Rightarrow> Inl e
      | Inr xs \<Rightarrow> Inr (if canonicalOrdering then sort xs else xs))"

definition uncharge_accounting ::
  "'p env \<Rightarrow> 'p Uncharger \<Rightarrow> molecule \<Rightarrow> error + accounting" where
  "uncharge_accounting env u mol =
     (let pm = SubstructMatch env mol (pos_h u);
          q_matches = SubstructMatch env mol (pos_noh u)
      in case efold (q_matched_step mol) 0 q_matches of
           Inl e \<Rightarrow> Inl e
         | Inr q \<Rightarrow>
             let n_matches = SubstructMatch env mol (neg u);
                 a_matches = SubstructMatch env mol (neg_acid u);
                 n_matched = length n_matches;
                 a_matched = length a_matches;
                 needs = (q > 0 \<and> (n_matched > 0 \<or> a_matched > 0));
                 ranks = (if df_canonicalOrdering u \<and> needs then rankMolAtoms env mol
                          else [0..<getNumAtoms mol])
             in (case rank_and_sort (df_canonicalOrdering u) ranks n_matches of
                   Inl e \<Rightarrow> Inl e
                 | Inr ns \<Rightarrow>
                     (case rank_and_sort (df_canonicalOrdering u) ranks a_matches of
                        Inl e \<Rightarrow> Inl e
                      | Inr as \<Rightarrow>
                          (case build_neg_atoms mol ns as of
                             Inl e \<Rightarrow> Inl e
                           | Inr negs \<Rightarrow>
                               Inr \<lparr>p_matches = pm, q_matched = q, needsNeutralization = needs,
                                    atomRanks = ranks, n_atoms = ns, a_atoms = as,
                                    neg_atoms = negs\<rparr>))))"

definition initial_neg_surplus :: "'p Uncharger \<Rightarrow> accounting \<Rightarrow> 32 word" where
  "initial_neg_surplus u acc =
     (if \<not> df_force u then word_of_nat (length (neg_atoms acc)) - q_matched acc
      else word_of_nat (length (neg_atoms acc)))"

definition neutralize_negatives ::
  "'p env \<Rightarrow> molecule \<Rightarrow> 32 word \<Rightarrow> (nat \<times> nat) list \<Rightarrow> error + molecule" where
  "neutralize_negatives env mol neg_surplus negs =
     (if neg_surplus \<noteq> 0 then neutralize_surplus env mol neg_surplus negs else Inr mol)"

definition neutralize_positives ::
  "'p env \<Rightarrow> molecule \<Rightarrow> MatchVectType list \<Rightarrow> error + molecule" where
  "neutralize_positives env mol pm =
     (let netCharge = getFormalCharge mol
      in if netCharge > 0
         then neutralize_cations env mol netCharge (concat (map (map snd) pm))
         else Inr mol)"

definition unchargeInPlace :: "'p env \<Rightarrow> 'p Uncharger \<Rightarrow> molecule \<Rightarrow> error + molecule" where
  "unchargeInPlace env u mol =
     (let mol0 = (if needsUpdatePropertyCache mol then updatePropertyCache env mol else mol)
      in case uncharge_accounting env u mol0 of
           Inl e \<Rightarrow> Inl e
         | Inr acc \<Rightarrow>
             (case neutralize_negatives env mol0 (initial_neg_surplus u acc) (neg_atoms acc) of
                Inl e \<Rightarrow> Inl e
              | Inr mol1 \<Rightarrow> neutralize_positives env mol1 (p_matches acc)))"

subsection \<open>The patterns of the constructor\<close>

text \<open>
  \<^verbatim>\<open>Uncharger::Uncharger()\<close> builds its four patterns from SMARTS text. Here a
  pattern is that text, and the flags are arguments.
\<close>

definition Uncharger_ctor :: "bool \<Rightarrow> bool \<Rightarrow> string Uncharger" where
  "Uncharger_ctor canonicalOrdering force =
     \<lparr>pos_h = ''[+,+2,+3,+4;!h0;!$(*~[-]),$(*(~[-])~[-])]'',
      pos_noh = ''[+,+2,+3,+4;h0;!$(*~[-])]'',
      neg = ''[-!$(*~[+,+2,+3,+4])]'',
      neg_acid = ''[$([O,S;-][C,S;+0]=[O,S]),$([O,S;-][N,P;+](=[O,S])[O,S;-]),$([O-][Cl,Br,I;+,+2,+3][O-]),$([n-]1nnnc1),$([n-]1ncnn1)]'',
      df_canonicalOrdering = canonicalOrdering,
      df_force = force\<rparr>"

text \<open>
  Modelled from the spec: the substructure matcher on these four patterns
  (\<^verbatim>\<open>SubstructMatch\<close> and the SMARTS parser are not among the sources). Each pattern
  is a single query atom, so a match is one pair \<open>(0, idx)\<close>, and the matches
  come in the order of the atom indices. The atom tests read the SMARTS text:
  \<^verbatim>\<open>+n\<close> and \<^verbatim>\<open>-\<close> are formal charges, \<^verbatim>\<open>h0\<close> is an atom that carries no
  hydrogen, \<^verbatim>\<open>~\<close> is any bond, a bond that is not written is single or aromatic,
  \<^verbatim>\<open>=\<close> is a double bond, a capital element symbol is an aliphatic atom and a
  small one an aromatic atom, \<^verbatim>\<open>$(...)\<close> holds for an atom that is the first atom
  of an embedding of the inner pattern into distinct atoms, \<^verbatim>\<open>!\<close> negates,
  \<^verbatim>\<open>,\<close> is "or", \<^verbatim>\<open>;\<close> is the "and" of lowest precedence.
\<close>

definition charge_of :: "molecule \<Rightarrow> nat \<Rightarrow> int" where
  "charge_of mol i = formalCharge (atoms mol ! i)"

definition is_cation :: "molecule \<Rightarrow> nat \<Rightarrow> bool" where
  "is_cation mol i = (charge_of mol i \<in> {1, 2, 3, 4})"

definition aliphatic :: "molecule \<Rightarrow> nat list \<Rightarrow> nat \<Rightarrow> bool" where
  "aliphatic mol zs i = (atomicNum (atoms mol ! i) \<in> set zs \<and> \<not> isAromatic (atoms mol ! i))"

definition aromatic :: "molecule \<Rightarrow> nat \<Rightarrow> nat \<Rightarrow> bool" where
  "aromatic mol z i = (atomicNum (atoms mol ! i) = z \<and> isAromatic (atoms mol ! i))"

definition neighbors_via :: "molecule \<Rightarrow> (bond_type \<Rightarrow> bool) \<Rightarrow> nat \<Rightarrow> nat list" where
  "neighbors_via mol ok idx =
     filter (\<lambda>j. j < getNumAtoms mol)
       (concat (map (\<lambda>b. if \<not> ok (bondType b) then []
                          else if beginAtomIdx b = idx then [endAtomIdx b]
                          else if endAtomIdx b = idx then [beginAtomIdx b] else [])
                    (bonds mol)))"

definition unwritten_bond :: "bond_type \<Rightarrow> bool" where
  "unwritten_bond t = (t = SINGLE \<or> t = AROMATIC)"

definition double_bond :: "bond_type \<Rightarrow> bool" where
  "double_bond t = (t = DOUBLE)"

definition anion_neighbors :: "molecule \<Rightarrow> nat \<Rightarrow> nat list" where
  "anion_neighbors mol i =
     remdups (filter (\<lambda>j. j \<noteq> i \<and> charge_of mol j = - 1) (getAtomNeighbors mol i))"

definition smarts_pos_h :: "molecule \<Rightarrow> nat \<Rightarrow> bool" where
  "smarts_pos_h mol i =
     (is_cation mol i \<and> getTotalNumHs (atoms mol ! i) \<noteq> 0 \<and>
      (anion_neighbors mol i = [] \<or> length (anion_neighbors mol i) \<ge> 2))"

definition smarts_pos_noh :: "molecule \<Rightarrow> nat \<Rightarrow> bool" where
  "smarts_pos_noh mol i =
     (is_cation mol i \<and> getTotalNumHs (atoms mol ! i) = 0 \<and> anion_neighbors mol i = [])"

definition smarts_neg :: "molecule \<Rightarrow> nat \<Rightarrow> bool" where
  "smarts_neg mol i =
     (charge_of mol i = - 1 \<and>
      \<not> list_ex (\<lambda>j. j \<noteq> i \<and> is_cation mol j) (getAtomNeighbors mol i))"

definition smarts_acid_carboxylate :: "molecule \<Rightarrow> nat \<Rightarrow> bool" where
  "smarts_acid_carboxylate mol i =
     (aliphatic mol [8, 16] i \<and> charge_of mol i = - 1 \<and>
      list_ex (\<lambda>c. c \<noteq> i \<and> aliphatic mol [6, 16] c \<and> charge_of mol c = 0 \<and>
                   list_ex (\<lambda>x. x \<noteq> i \<and> x \<noteq> c \<and> aliphatic mol [8, 16] x)
                           (neighbors_via mol double_bond c))
              (neighbors_via mol unwritten_bond i))"

definition smarts_acid_nitrate :: "molecule \<Rightarrow> nat \<Rightarrow> bool" where
  "smarts_acid_nitrate mol i =
     (aliphatic mol [8, 16] i \<and> charge_of mol i = - 1 \<and>
      list_ex (\<lambda>c. c \<noteq> i \<and> aliphatic mol [7, 15] c \<and> charge_of mol c = 1 \<and>
                   list_ex (\<lambda>x. x \<noteq> i \<and> x \<noteq> c \<and> aliphatic mol [8, 16] x \<and>
                                list_ex (\<lambda>y. y \<noteq> i \<and> y \<noteq> c \<and> y \<noteq> x \<and>
                                             aliphatic mol [8, 16] y \<and> charge_of mol y = - 1)
                                        (neighbors_via mol unwritten_bond c))
                           (neighbors_via mol double_bond c))
              (neighbors_via mol unwritten_bond i))"

definition smarts_acid_halate :: "molecule \<Rightarrow> nat \<Rightarrow> bool" where
  "smarts_acid_halate mol i =
     (aliphatic mol [8] i \<and> charge_of mol i = - 1 \<and>
      list_ex (\<lambda>c. c \<noteq> i \<and> aliphatic mol [17, 35, 53] c \<and> charge_of mol c \<in> {1, 2, 3} \<and>
                   list_ex (\<lambda>y. y \<noteq> i \<and> y \<noteq> c \<and> aliphatic mol [8] y \<and> charge_of mol y = - 1)
                           (neighbors_via mol unwritten_bond c))
              (neighbors_via mol unwritten_bond i))"

text \<open>
  A five-membered ring through the atom \<open>i\<close> whose further atoms are aromatic
  atoms of the elements \<open>z1\<close>, \<open>z2\<close>, \<open>z3\<close>, \<open>z4\<close> in this order.
\<close>

definition smarts_ring5 :: "molecule \<Rightarrow> nat \<Rightarrow> nat \<Rightarrow> nat \<Rightarrow> nat \<Rightarrow> nat \<Rightarrow> bool" where
  "smarts_ring5 mol z1 z2 z3 z4 i =
     list_ex (\<lambda>a. a \<noteq> i \<and> aromatic mol z1 a \<and>
       list_ex (\<lambda>b. b \<notin> {i, a} \<and> aromatic mol z2 b \<and>
         list_ex (\<lambda>c. c \<notin> {i, a, b} \<and> aromatic mol z3 c \<and>
           list_ex (\<lambda>d. d \<notin> {i, a, b, c} \<and> aromatic mol z4 d \<and>
                        i \<in> set (neighbors_via mol unwritten_bond d))
                   (neighbors_via mol unwritten_bond c))
                 (neighbors_via mol unwritten_bond b))
               (neighbors_via mol unwritten_bond a))
             (neighbors_via mol unwritten_bond i)"

definition smarts_acid_tetrazole :: "molecule \<Rightarrow> nat \<Rightarrow> bool" where
  "smarts_acid_tetrazole mol i =
     (aromatic mol 7 i \<and> charge_of mol i = - 1 \<and>
      (smarts_ring5 mol 7 7 7 6 i \<or> smarts_ring5 mol 7 6 7 7 i))"

definition smarts_neg_acid :: "molecule \<Rightarrow> nat \<Rightarrow> bool" where
  "smarts_neg_acid mol i =
     (smarts_acid_carboxylate mol i \<or> smarts_acid_nitrate mol i \<or>
      smarts_acid_halate mol i \<or> smarts_acid_tetrazole mol i)"

definition smarts_query :: "string \<Rightarrow> molecule \<Rightarrow> nat \<Rightarrow> bool" where
  "smarts_query pat mol i =
     (if pat = pos_h (Uncharger_ctor True False) then smarts_pos_h mol i
      else if pat = pos_noh (Uncharger_ctor True False) then smarts_pos_noh mol i
      else if pat = neg (Uncharger_ctor True False) then smarts_neg mol i
      else if pat = neg_acid (Uncharger_ctor True False) then smarts_neg_acid mol i
      else False)"

definition smarts_matches :: "molecule \<Rightarrow> string \<Rightarrow> MatchVectType list" where
  "smarts_matches mol pat =
     map (\<lambda>i. [(0, i)]) (filter (smarts_query pat mol) [0..<getNumAtoms mol])"

text \<open>
  Modelled from the spec: the remaining collaborators of the examples. The
  valence refresh counts bond orders and explicit hydrogens and gives no implicit
  hydrogens (every atom of the examples has the no-implicit flag, as a bracket
  atom has); the valence list is empty; the early atoms are Li, Be, B, Na, Mg, Al,
  K and Ca; the ranker is an argument.
\<close>

definition bond_order :: "bond_type \<Rightarrow> int" where
  "bond_order t = (case t of SINGLE \<Rightarrow> 1 | DOUBLE \<Rightarrow> 2 | TRIPLE \<Rightarrow> 3 | AROMATIC \<Rightarrow> 1)"

definition example_explicit_valence :: "molecule \<Rightarrow> nat \<Rightarrow> int" where
  "example_explicit_valence mol i =
     int (numExplicitHs (atoms mol ! i)) +
     sum_list (map (\<lambda>b. if beginAtomIdx b = i \<or> endAtomIdx b = i then bond_order (bondType b) else 0)
                   (bonds mol))"

definition smarts_env :: "(molecule \<Rightarrow> nat list) \<Rightarrow> string env" where
  "smarts_env ranker =
     \<lparr>SubstructMatch = smarts_matches,
      SubstructMatch1 = (\<lambda>mol pat. case smarts_matches mol pat of [] \<Rightarrow> None | m # _ \<Rightarrow> Some m),
      calcExplicitValence = example_explicit_valence,
      calcImplicitValence = (\<lambda>mol i. 0),
      getValenceList = (\<lambda>z. []),
      isEarlyAtom = (\<lambda>z. z \<in> {3, 4, 5, 11, 12, 13, 19, 20}),
      rankMolAtoms = ranker\<rparr>"

subsection \<open>A pass without the counter\<close>

text \<open>
  For comparison with \<open>neutralize_surplus\<close>: the same loop over the list of negative
  sites with no counter and no \<^verbatim>\<open>break\<close>, so that every atom of the list is handed to
  \<open>neutralizeNegIfPossible\<close>. This function is not in the source.
\<close>

fun neutralize_every :: "'p env \<Rightarrow> molecule \<Rightarrow> (nat \<times> nat) list \<Rightarrow> error + molecule" where
  "neutralize_every env mol [] = Inr mol"
| "neutralize_every env mol (pair # rest) =
     (case getAtomWithIdx mol (snd pair) of
        Inl e \<Rightarrow> Inl e
      | Inr _ \<Rightarrow> neutralize_every env (snd (neutralizeNegIfPossible env mol (snd pair))) rest)"

subsection \<open>The rank key without the range checks\<close>

text \<open>
  For stating the order of the ranked lists: the pair that \<open>getRankIdxPair\<close> returns
  for a match that has an atom whose index is within the ranks.
\<close>

definition rank_idx :: "nat list \<Rightarrow> MatchVectType \<Rightarrow> nat \<times> nat" where
  "rank_idx ranks mv = (ranks ! snd (hd mv), snd (hd mv))"

subsection \<open>Acid sites, one for each positive neighbour\<close>

text \<open>
  For comparison with the two loops over \<^verbatim>\<open>a_atoms\<close> and their bitset: the first
  positively charged neighbour of an atom, in the order of the neighbour
  iteration, and the list of the acid sites in which every such neighbour is
  taken by the first acid site that has it. These functions are not in the source.
\<close>

definition first_positive_neighbor :: "molecule \<Rightarrow> nat \<Rightarrow> nat option" where
  "first_positive_neighbor mol idx =
     find (\<lambda>j. formalCharge (atoms mol ! j) > 0) (getAtomNeighbors mol idx)"

fun keep_first :: "molecule \<Rightarrow> nat set \<Rightarrow> (nat \<times> nat) list \<Rightarrow> (nat \<times> nat) list" where
  "keep_first mol taken [] = []"
| "keep_first mol taken (pair # rest) =
     (case first_positive_neighbor mol (snd pair) of
        None \<Rightarrow> pair # keep_first mol taken rest
      | Some nbr \<Rightarrow>
          if nbr \<in> taken then keep_first mol taken rest
          else pair # keep_first mol (insert nbr taken) rest)"

subsection \<open>What a call of the uncharger may change\<close>

text \<open>
  The formal charge, the explicit hydrogen count and the no-implicit flag of every
  atom, in the order of the atoms.
\<close>

definition charge_state :: "molecule \<Rightarrow> (int \<times> nat \<times> bool) list" where
  "charge_state mol = map (\<lambda>a. (formalCharge a, numExplicitHs a, noImplicit a)) (atoms mol)"

subsection \<open>The valence of the base atom at the test of a transfer\<close>

text \<open>
  For comparison with the valence test of a proton transfer: the molecule as it is
  when the test reads the total valence of the base atom (the acid atom is done,
  the charge of the base atom is set, its hydrogen count is not yet), and the
  total valence that a refresh of an atom would give. The source refreshes the
  base atom only after the test. These functions are not in the source.
\<close>

definition base_charged :: "'p env \<Rightarrow> molecule \<Rightarrow> nat \<Rightarrow> nat \<Rightarrow> molecule" where
  "base_charged env mol p i =
     (let mol1 = updAtom mol p (\<lambda>a. a\<lparr>formalCharge := formalCharge a - 1\<rparr>);
          mol2 = (if getNumImplicitHs (atoms mol1 ! p) = 0 \<and> numExplicitHs (atoms mol1 ! p) > 0
                  then updAtom mol1 p (\<lambda>a. a\<lparr>numExplicitHs := numExplicitHs a - 1\<rparr>)
                  else mol1);
          mol3 = atomUpdatePropertyCache env mol2 p
      in updAtom mol3 i (\<lambda>a. a\<lparr>formalCharge := formalCharge a + 1\<rparr>))"

definition refreshed_total_valence :: "'p env \<Rightarrow> molecule \<Rightarrow> nat \<Rightarrow> int" where
  "refreshed_total_valence env mol idx =
     getTotalValence (atoms (atomUpdatePropertyCache env mol idx) ! idx)"

subsection \<open>Molecules whose ions are apart\<close>

text \<open>
  For stating when a second call of the uncharger changes nothing: an atom with a
  formal charge above \<open>+1\<close> carries no hydrogen (it has the no-implicit flag and no
  explicit hydrogen), and no bond joins an atom of positive charge and an atom
  of charge \<open>-1\<close>. These predicates are not in the source.
\<close>

definition multiple_charges_bare :: "molecule \<Rightarrow> bool" where
  "multiple_charges_bare mol =
     list_all (\<lambda>a. formalCharge a \<le> 1 \<or> (noImplicit a \<and> numExplicitHs a = 0)) (atoms mol)"

definition cation_anion_bond :: "molecule \<Rightarrow> bond \<Rightarrow> bool" where
  "cation_anion_bond mol b =
     (beginAtomIdx b < getNumAtoms mol \<and> endAtomIdx b < getNumAtoms mol \<and>
      ((0 < charge_of mol (beginAtomIdx b) \<and> charge_of mol (endAtomIdx b) = - 1) \<or>
       (charge_of mol (beginAtomIdx b) = - 1 \<and> 0 < charge_of mol (endAtomIdx b))))"

definition ions_apart :: "molecule \<Rightarrow> bool" where
  "ions_apart mol = (\<not> list_ex (cation_anion_bond mol) (bonds mol))"

section \<open>Examples\<close>

text \<open>
  The atoms of the examples are what a bracket atom of SMILES gives: aliphatic,
  with explicit hydrogens only and the no-implicit flag. Their cached valence
  state is present, with the value zero until a refresh computes it. (One
  example further down has atoms that allow implicit hydrogens; it comes with
  its own valence model.)
\<close>

definition bracket_atom :: "nat \<Rightarrow> int \<Rightarrow> nat \<Rightarrow> atom" where
  "bracket_atom z c h = \<lparr>atomicNum = z, formalCharge = c, numExplicitHs = h, noImplicit = True,
     isAromatic = False, explicitValence = 0, implicitValence = 0\<rparr>"

text \<open>
  A matcher for the examples of the reionizer: a pattern is a test on one atom,
  and the match is the first atom in index order that passes it. The catalog of
  the examples has two entries, a hydroxy group (the stronger acid) and a thiol.
\<close>

definition first_atom_match :: "molecule \<Rightarrow> (atom \<Rightarrow> bool) \<Rightarrow> MatchVectType option" where
  "first_atom_match mol pat =
     (case filter (\<lambda>i. pat (atoms mol ! i)) [0..<getNumAtoms mol] of
        [] \<Rightarrow> None
      | i # _ \<Rightarrow> Some [(0, i)])"

definition atom_env :: "(atom \<Rightarrow> bool) env" where
  "atom_env =
     \<lparr>SubstructMatch = (\<lambda>mol pat. map (\<lambda>i. [(0, i)]) (filter (\<lambda>i. pat (atoms mol ! i)) [0..<getNumAtoms mol])),
      SubstructMatch1 = first_atom_match,
      calcExplicitValence = example_explicit_valence,
      calcImplicitValence = (\<lambda>mol i. 0),
      getValenceList = (\<lambda>z. []),
      isEarlyAtom = (\<lambda>z. z \<in> {3, 4, 5, 11, 12, 13, 19, 20}),
      rankMolAtoms = (\<lambda>mol. [0..<getNumAtoms mol])\<rparr>"

definition hydroxy_pair :: "(atom \<Rightarrow> bool) \<times> (atom \<Rightarrow> bool)" where
  "hydroxy_pair =
     ((\<lambda>a. atomicNum a = 8 \<and> formalCharge a = 0 \<and> 0 < numExplicitHs a),
      (\<lambda>a. atomicNum a = 8 \<and> formalCharge a = - 1))"

definition thiol_pair :: "(atom \<Rightarrow> bool) \<times> (atom \<Rightarrow> bool)" where
  "thiol_pair =
     ((\<lambda>a. atomicNum a = 16 \<and> formalCharge a = 0 \<and> 0 < numExplicitHs a),
      (\<lambda>a. atomicNum a = 16 \<and> formalCharge a = - 1))"

definition hydroxy_thiolate :: molecule where
  "hydroxy_thiolate = \<lparr>atoms = [bracket_atom 8 0 1, bracket_atom 16 (- 1) 0, bracket_atom 6 0 2],
                        bonds = [\<lparr>beginAtomIdx = 0, endAtomIdx = 2, bondType = SINGLE\<rparr>,
                                 \<lparr>beginAtomIdx = 1, endAtomIdx = 2, bondType = SINGLE\<rparr>]\<rparr>"

lemmas example_simps =
  atom_env_def first_atom_match_def hydroxy_pair_def thiol_pair_def hydroxy_thiolate_def
  bracket_atom_def getNumAtoms_def

text \<open>The first example molecule after the proton has moved from the oxygen to the sulfur.\<close>

definition thiol_alkoxide :: molecule where
  "thiol_alkoxide =
     \<lparr>atoms = [(bracket_atom 8 (- 1) 0)\<lparr>explicitValence := 1\<rparr>,
               (bracket_atom 16 0 1)\<lparr>explicitValence := 2\<rparr>, bracket_atom 6 0 2],
      bonds = bonds hydroxy_thiolate\<rparr>"

text \<open>
  A catalog whose two entries overlap on a hydroxide ion: the ion is an O-H group
  for the first entry and an oxygen anion for the second.
\<close>

definition oh_pair :: "(atom \<Rightarrow> bool) \<times> (atom \<Rightarrow> bool)" where
  "oh_pair =
     ((\<lambda>a. atomicNum a = 8 \<and> 0 < numExplicitHs a),
      (\<lambda>a. atomicNum a = 8 \<and> formalCharge a = - 1 \<and> numExplicitHs a = 0))"

definition water_pair :: "(atom \<Rightarrow> bool) \<times> (atom \<Rightarrow> bool)" where
  "water_pair =
     ((\<lambda>a. atomicNum a = 8 \<and> 2 \<le> numExplicitHs a),
      (\<lambda>a. atomicNum a = 8 \<and> formalCharge a = - 1))"

definition hydroxide :: molecule where
  "hydroxide = \<lparr>atoms = [bracket_atom 8 (- 1) 1], bonds = []\<rparr>"

text \<open>
  Methanol beside a sodium ion, as it is after the charge correction of the
  sodium, and the same with the hydroxy group ionized.
\<close>

definition sodium_methanol :: molecule where
  "sodium_methanol =
     \<lparr>atoms = [bracket_atom 11 1 0, bracket_atom 8 0 1, bracket_atom 6 0 3],
      bonds = [\<lparr>beginAtomIdx = 1, endAtomIdx = 2, bondType = SINGLE\<rparr>]\<rparr>"

definition sodium_methoxide :: molecule where
  "sodium_methoxide =
     \<lparr>atoms = [bracket_atom 11 1 0, (bracket_atom 8 (- 1) 0)\<lparr>explicitValence := 1\<rparr>,
               bracket_atom 6 0 3],
      bonds = bonds sodium_methanol\<rparr>"

text \<open>
  Examples for the uncharger, matched with the patterns of the constructor. The
  ranker of these examples ranks the atoms by their index.
\<close>

definition index_ranks :: "molecule \<Rightarrow> nat list" where
  "index_ranks mol = [0..<getNumAtoms mol]"

definition magnesium_methoxide :: molecule where
  "magnesium_methoxide =
     \<lparr>atoms = [bracket_atom 12 2 0, (bracket_atom 8 (- 1) 0)\<lparr>explicitValence := 1\<rparr>,
               bracket_atom 6 0 3],
      bonds = [\<lparr>beginAtomIdx = 1, endAtomIdx = 2, bondType = SINGLE\<rparr>]\<rparr>"

definition magnesium_methanol :: molecule where
  "magnesium_methanol =
     \<lparr>atoms = [bracket_atom 12 2 0, (bracket_atom 8 0 1)\<lparr>explicitValence := 2\<rparr>,
               bracket_atom 6 0 3],
      bonds = [\<lparr>beginAtomIdx = 1, endAtomIdx = 2, bondType = SINGLE\<rparr>]\<rparr>"

text \<open>
  A ranker that ranks the atoms in the reverse order of their indices, and two
  molecules with a methoxide and a methanethiolate ion, without and with a sodium
  ion.
\<close>

definition reverse_ranks :: "molecule \<Rightarrow> nat list" where
  "reverse_ranks mol = rev [0..<getNumAtoms mol]"

definition two_anions :: molecule where
  "two_anions =
     \<lparr>atoms = [bracket_atom 8 (- 1) 0, bracket_atom 6 0 3, bracket_atom 16 (- 1) 0, bracket_atom 6 0 3],
      bonds = [\<lparr>beginAtomIdx = 0, endAtomIdx = 1, bondType = SINGLE\<rparr>,
               \<lparr>beginAtomIdx = 2, endAtomIdx = 3, bondType = SINGLE\<rparr>]\<rparr>"

definition two_anions_sodium :: molecule where
  "two_anions_sodium =
     \<lparr>atoms = [bracket_atom 8 (- 1) 0, bracket_atom 6 0 3, bracket_atom 16 (- 1) 0, bracket_atom 6 0 3,
               bracket_atom 11 1 0],
      bonds = [\<lparr>beginAtomIdx = 0, endAtomIdx = 1, bondType = SINGLE\<rparr>,
               \<lparr>beginAtomIdx = 2, endAtomIdx = 3, bondType = SINGLE\<rparr>]\<rparr>"

text \<open>
  A nitrate ion, written with two charged oxygens and a charged nitrogen; the same
  with the first oxygen protonated; and tetramethylammonium nitrate.
\<close>

definition nitrate :: molecule where
  "nitrate =
     \<lparr>atoms = [bracket_atom 8 (- 1) 0, bracket_atom 7 1 0, bracket_atom 8 0 0, bracket_atom 8 (- 1) 0],
      bonds = [\<lparr>beginAtomIdx = 0, endAtomIdx = 1, bondType = SINGLE\<rparr>,
               \<lparr>beginAtomIdx = 1, endAtomIdx = 2, bondType = DOUBLE\<rparr>,
               \<lparr>beginAtomIdx = 1, endAtomIdx = 3, bondType = SINGLE\<rparr>]\<rparr>"

definition nitrate_protonated :: molecule where
  "nitrate_protonated =
     \<lparr>atoms = [(bracket_atom 8 0 1)\<lparr>explicitValence := 2\<rparr>, bracket_atom 7 1 0, bracket_atom 8 0 0,
               bracket_atom 8 (- 1) 0],
      bonds = bonds nitrate\<rparr>"

definition tetramethylammonium_nitrate :: molecule where
  "tetramethylammonium_nitrate =
     \<lparr>atoms = [bracket_atom 8 (- 1) 0, bracket_atom 7 1 0, bracket_atom 8 0 0, bracket_atom 8 (- 1) 0,
               bracket_atom 7 1 0, bracket_atom 6 0 3, bracket_atom 6 0 3, bracket_atom 6 0 3,
               bracket_atom 6 0 3],
      bonds = [\<lparr>beginAtomIdx = 0, endAtomIdx = 1, bondType = SINGLE\<rparr>,
               \<lparr>beginAtomIdx = 1, endAtomIdx = 2, bondType = DOUBLE\<rparr>,
               \<lparr>beginAtomIdx = 1, endAtomIdx = 3, bondType = SINGLE\<rparr>,
               \<lparr>beginAtomIdx = 4, endAtomIdx = 5, bondType = SINGLE\<rparr>,
               \<lparr>beginAtomIdx = 4, endAtomIdx = 6, bondType = SINGLE\<rparr>,
               \<lparr>beginAtomIdx = 4, endAtomIdx = 7, bondType = SINGLE\<rparr>,
               \<lparr>beginAtomIdx = 4, endAtomIdx = 8, bondType = SINGLE\<rparr>]\<rparr>"

text \<open>
  A cation with two hydrogens between two oxygen anions, beside two ammonium ions;
  the same after one call of the uncharger; and after two calls.
\<close>

definition diolate_salt :: molecule where
  "diolate_salt =
     \<lparr>atoms = [bracket_atom 7 1 2, bracket_atom 8 (- 1) 0, bracket_atom 8 (- 1) 0,
               bracket_atom 7 1 4, bracket_atom 7 1 4],
      bonds = [\<lparr>beginAtomIdx = 0, endAtomIdx = 1, bondType = SINGLE\<rparr>,
               \<lparr>beginAtomIdx = 0, endAtomIdx = 2, bondType = SINGLE\<rparr>]\<rparr>"



text \<open>
  The charge correction of the alkali metals, as a test on one atom, and methanol
  beside a sodium atom that the correction has not yet charged.
\<close>

definition sodium_correction :: "(atom \<Rightarrow> bool) ChargeCorrection" where
  "sodium_correction =
     \<lparr>Name = ''[Li,Na,K]'',
      Smarts = (\<lambda>a. atomicNum a \<in> {3, 11, 19} \<and> formalCharge a = 0),
      Charge = 1\<rparr>"

definition sodium_atom_methanol :: molecule where
  "sodium_atom_methanol =
     \<lparr>atoms = [bracket_atom 11 0 0, bracket_atom 8 0 1, bracket_atom 6 0 3],
      bonds = bonds sodium_methanol\<rparr>"

text \<open>
  Modelled from the spec: a valence model for an example whose atoms allow implicit
  hydrogens, as the atoms of a molecule read from a connection table do (the
  periodic table and the valence computation are not among the sources). The
  valence list of an element is given for C, N, O, P and S. The refresh gives an
  atom without the no-implicit flag the implicit hydrogens that fill it up to
  the first listed valence, the formal charge added to it, that is not below its
  explicit valence.
\<close>

definition example_valence_list :: "nat \<Rightarrow> int list" where
  "example_valence_list z =
     (if z = 6 then [4] else if z = 7 then [3] else if z = 8 then [2]
      else if z = 15 then [3, 5, 7] else if z = 16 then [2, 4, 6] else [])"

definition example_implicit_valence :: "molecule \<Rightarrow> nat \<Rightarrow> int" where
  "example_implicit_valence mol i =
     (let a = atoms mol ! i; ev = example_explicit_valence mol i
      in if noImplicit a then 0
         else (case find (\<lambda>v. ev \<le> v + formalCharge a) (example_valence_list (atomicNum a)) of
                 None \<Rightarrow> 0
               | Some v \<Rightarrow> v + formalCharge a - ev))"

definition valence_env :: "(atom \<Rightarrow> bool) env" where
  "valence_env = atom_env\<lparr>calcImplicitValence := example_implicit_valence,
                          getValenceList := example_valence_list\<rparr>"

text \<open>
  An atom that allows implicit hydrogens, with its cached explicit and implicit
  valence; a catalog of a thiol (the stronger acid) and a hydroxy group whose
  patterns count all hydrogens; the anion of mercaptomethanol with the charge on
  the oxygen; and the same after the proton has moved from the sulfur to the
  oxygen.
\<close>

definition plain_atom :: "nat \<Rightarrow> int \<Rightarrow> int \<Rightarrow> int \<Rightarrow> atom" where
  "plain_atom z c ev iv = \<lparr>atomicNum = z, formalCharge = c, numExplicitHs = 0, noImplicit = False,
     isAromatic = False, explicitValence = ev, implicitValence = iv\<rparr>"

definition thiol_site :: "(atom \<Rightarrow> bool) \<times> (atom \<Rightarrow> bool)" where
  "thiol_site =
     ((\<lambda>a. atomicNum a = 16 \<and> formalCharge a = 0 \<and> 0 < getTotalNumHs a),
      (\<lambda>a. atomicNum a = 16 \<and> formalCharge a = - 1))"

definition hydroxy_site :: "(atom \<Rightarrow> bool) \<times> (atom \<Rightarrow> bool)" where
  "hydroxy_site =
     ((\<lambda>a. atomicNum a = 8 \<and> formalCharge a = 0 \<and> 0 < getTotalNumHs a),
      (\<lambda>a. atomicNum a = 8 \<and> formalCharge a = - 1))"

definition mercapto_methoxide :: molecule where
  "mercapto_methoxide =
     \<lparr>atoms = [plain_atom 16 0 1 1, plain_atom 6 0 2 2, plain_atom 8 (- 1) 1 0],
      bonds = [\<lparr>beginAtomIdx = 0, endAtomIdx = 1, bondType = SINGLE\<rparr>,
               \<lparr>beginAtomIdx = 1, endAtomIdx = 2, bondType = SINGLE\<rparr>]\<rparr>"

definition thiolate_methanol :: molecule where
  "thiolate_methanol =
     \<lparr>atoms = [plain_atom 16 (- 1) 1 0, plain_atom 6 0 2 2,
               (plain_atom 8 0 2 0)\<lparr>numExplicitHs := 1\<rparr>],
      bonds = bonds mercapto_methoxide\<rparr>"




definition chloride_salt :: molecule where
  "chloride_salt =
     \<lparr>atoms = [bracket_atom 17 (- 1) 0, bracket_atom 11 1 0, bracket_atom 7 2 1],
      bonds = []\<rparr>"

definition chloride_salt_once :: molecule where
  "chloride_salt_once =
     \<lparr>atoms = [bracket_atom 17 (- 1) 0, bracket_atom 11 1 0, bracket_atom 7 1 0],
      bonds = []\<rparr>"

definition chloride_salt_twice :: molecule where
  "chloride_salt_twice =
     \<lparr>atoms = [(bracket_atom 17 0 1)\<lparr>explicitValence := 1\<rparr>, bracket_atom 11 1 0,
               bracket_atom 7 1 0],
      bonds = []\<rparr>"

definition perchlorate :: molecule where
  "perchlorate =
     \<lparr>atoms = [bracket_atom 17 3 0, bracket_atom 8 (- 1) 0, bracket_atom 8 (- 1) 0,
               bracket_atom 8 (- 1) 0, bracket_atom 8 (- 1) 0],
      bonds = [\<lparr>beginAtomIdx = 0, endAtomIdx = 1, bondType = SINGLE\<rparr>,
               \<lparr>beginAtomIdx = 0, endAtomIdx = 2, bondType = SINGLE\<rparr>,
               \<lparr>beginAtomIdx = 0, endAtomIdx = 3, bondType = SINGLE\<rparr>,
               \<lparr>beginAtomIdx = 0, endAtomIdx = 4, bondType = SINGLE\<rparr>]\<rparr>"

definition perchlorate_once :: molecule where
  "perchlorate_once =
     \<lparr>atoms = [bracket_atom 17 3 0, (bracket_atom 8 0 1)\<lparr>explicitValence := 2\<rparr>,
               bracket_atom 8 (- 1) 0, bracket_atom 8 (- 1) 0, bracket_atom 8 (- 1) 0],
      bonds = bonds perchlorate\<rparr>"

definition perchlorate_twice :: molecule where
  "perchlorate_twice =
     \<lparr>atoms = [bracket_atom 17 3 0, (bracket_atom 8 0 1)\<lparr>explicitValence := 2\<rparr>,
               (bracket_atom 8 0 1)\<lparr>explicitValence := 2\<rparr>, bracket_atom 8 (- 1) 0,
               bracket_atom 8 (- 1) 0],
      bonds = bonds perchlorate\<rparr>"

section \<open>Properties of the reionizer\<close>

subsection \<open>The catalog scans\<close>

lemma strongestProtonated_scan_None:
  "strongestProtonated_scan env mol pos xs = None \<longleftrightarrow>
     (\<forall>k<length xs. SubstructMatch1 env mol (fst (xs ! k)) = None)"
proof (induction xs arbitrary: pos)
  case Nil
  then show ?case by simp
next
  case (Cons x xs)
  show ?case
    by (cases "SubstructMatch1 env mol (fst x)") (auto simp: Cons.IH All_less_Suc2)
qed

lemma strongestProtonated_scan_Some:
  "strongestProtonated_scan env mol pos xs = Some (r, occ) \<longleftrightarrow>
     (\<exists>k<length xs. r = pos + k \<and>
        (\<exists>res. SubstructMatch1 env mol (fst (xs ! k)) = Some res \<and> occ = map snd res) \<and>
        (\<forall>j<k. SubstructMatch1 env mol (fst (xs ! j)) = None))"
proof (induction xs arbitrary: pos)
  case Nil
  then show ?case by simp
next
  case (Cons x xs)
  show ?case
  proof (cases "SubstructMatch1 env mol (fst x)")
    case None
    then show ?thesis
      by (simp add: Cons.IH Ex_less_Suc2 All_less_Suc2)
  next
    case (Some res)
    then show ?thesis
      by (simp add: Ex_less_Suc2 All_less_Suc2) blast
  qed
qed

lemma weakestIonized_scan_None:
  "weakestIonized_scan env mol n pos xs = None \<longleftrightarrow>
     (\<forall>k<length xs. SubstructMatch1 env mol (snd (xs ! k)) = None)"
proof (induction xs arbitrary: pos)
  case Nil
  then show ?case by simp
next
  case (Cons x xs)
  show ?case
    by (cases "SubstructMatch1 env mol (snd x)") (auto simp: Cons.IH All_less_Suc2)
qed

lemma weakestIonized_scan_Some:
  "weakestIonized_scan env mol n pos xs = Some (r, occ) \<longleftrightarrow>
     (\<exists>k<length xs. r = n - (pos + k) - 1 \<and>
        (\<exists>res. SubstructMatch1 env mol (snd (xs ! k)) = Some res \<and> occ = map snd res) \<and>
        (\<forall>j<k. SubstructMatch1 env mol (snd (xs ! j)) = None))"
proof (induction xs arbitrary: pos)
  case Nil
  then show ?case by simp
next
  case (Cons x xs)
  show ?case
  proof (cases "SubstructMatch1 env mol (snd x)")
    case None
    then show ?thesis
      by (simp add: Cons.IH Ex_less_Suc2 All_less_Suc2)
  next
    case (Some res)
    then show ?thesis
      by (simp add: Ex_less_Suc2 All_less_Suc2) blast
  qed
qed

lemma strongestProtonated_Some_iff:
  "strongestProtonated env mol abpairs = Some (r, occ) \<longleftrightarrow>
     r < length abpairs \<and>
     (\<exists>res. SubstructMatch1 env mol (fst (abpairs ! r)) = Some res \<and> occ = map snd res) \<and>
     (\<forall>j<r. SubstructMatch1 env mol (fst (abpairs ! j)) = None)"
  by (auto simp: strongestProtonated_def strongestProtonated_scan_Some)

lemma weakestIonized_None_iff:
  "weakestIonized env mol abpairs = None \<longleftrightarrow>
     (\<forall>k<length abpairs. SubstructMatch1 env mol (snd (abpairs ! k)) = None)"
proof -
  have "(\<forall>k<length abpairs. SubstructMatch1 env mol (snd (rev abpairs ! k)) = None) \<longleftrightarrow>
        (\<forall>x\<in>set (rev abpairs). SubstructMatch1 env mol (snd x) = None)"
    by (metis in_set_conv_nth length_rev)
  also have "\<dots> \<longleftrightarrow> (\<forall>k<length abpairs. SubstructMatch1 env mol (snd (abpairs ! k)) = None)"
    by (simp add: all_set_conv_all_nth)
  finally show ?thesis
    by (simp add: weakestIonized_def weakestIonized_scan_None)
qed

lemma weakestIonized_Some_iff:
  "weakestIonized env mol abpairs = Some (r, occ) \<longleftrightarrow>
     r < length abpairs \<and>
     (\<exists>res. SubstructMatch1 env mol (snd (abpairs ! r)) = Some res \<and> occ = map snd res) \<and>
     (\<forall>j. r < j \<and> j < length abpairs \<longrightarrow> SubstructMatch1 env mol (snd (abpairs ! j)) = None)"
  (is "?L \<longleftrightarrow> ?R")
proof
  let ?n = "length abpairs"
  assume ?L
  then obtain k where k: "k < ?n" "r = ?n - k - 1"
    "\<exists>res. SubstructMatch1 env mol (snd (rev abpairs ! k)) = Some res \<and> occ = map snd res"
    "\<forall>j<k. SubstructMatch1 env mol (snd (rev abpairs ! j)) = None"
    by (auto simp: weakestIonized_def weakestIonized_scan_Some)
  have r: "r < ?n" using k by simp
  have idx: "rev abpairs ! k = abpairs ! r" using k by (simp add: rev_nth)
  have "SubstructMatch1 env mol (snd (abpairs ! j)) = None" if "r < j" "j < ?n" for j
  proof -
    have "?n - j - 1 < k" using that k by simp
    then have "SubstructMatch1 env mol (snd (rev abpairs ! (?n - j - 1))) = None" using k(4) by blast
    moreover have "rev abpairs ! (?n - j - 1) = abpairs ! j"
      using that by (simp add: rev_nth)
    ultimately show ?thesis by simp
  qed
  with r k(3) idx show ?R by auto
next
  let ?n = "length abpairs"
  assume R: ?R
  then have rn: "r < ?n" by blast
  let ?k = "?n - r - 1"
  have k: "?k < ?n" using rn by simp
  have idx: "rev abpairs ! ?k = abpairs ! r" using rn by (simp add: rev_nth)
  have "SubstructMatch1 env mol (snd (rev abpairs ! j)) = None" if "j < ?k" for j
  proof -
    have "rev abpairs ! j = abpairs ! (?n - j - 1)" using that by (simp add: rev_nth)
    moreover have "r < ?n - j - 1" "?n - j - 1 < ?n" using that rn by simp_all
    ultimately show ?thesis using R by simp
  qed
  moreover have "r = ?n - (0 + ?k) - 1" using rn by simp
  ultimately show ?L
    unfolding weakestIonized_def weakestIonized_scan_Some
    using k idx R by (intro exI[of _ ?k]) auto
qed

text \<open>
  Claim C5. \<open>strongestProtonated\<close> scans the catalog forward from rank 0 and returns
  the first rank whose protonated pattern matches, with the matched atom indices,
  or nothing if no rank matches. \<open>weakestIonized\<close> scans the catalog backward from
  the highest rank and returns the first rank whose ionized pattern matches, that
  is the highest such rank, reported as its index in the catalog, or nothing if no
  rank matches. Both functions return only this result: they take the molecule as
  a value and give none back.
\<close>

theorem scans_first_match:
  "(strongestProtonated env mol abpairs = None \<longleftrightarrow>
      (\<forall>k<length abpairs. SubstructMatch1 env mol (fst (abpairs ! k)) = None)) \<and>
   (strongestProtonated env mol abpairs = Some (r, occ) \<longleftrightarrow>
      r < length abpairs \<and>
      (\<exists>res. SubstructMatch1 env mol (fst (abpairs ! r)) = Some res \<and> occ = map snd res) \<and>
      (\<forall>j<r. SubstructMatch1 env mol (fst (abpairs ! j)) = None)) \<and>
   (weakestIonized env mol abpairs = None \<longleftrightarrow>
      (\<forall>k<length abpairs. SubstructMatch1 env mol (snd (abpairs ! k)) = None)) \<and>
   (weakestIonized env mol abpairs = Some (r', occ') \<longleftrightarrow>
      r' < length abpairs \<and>
      (\<exists>res. SubstructMatch1 env mol (snd (abpairs ! r')) = Some res \<and> occ' = map snd res) \<and>
      (\<forall>j. r' < j \<and> j < length abpairs \<longrightarrow> SubstructMatch1 env mol (snd (abpairs ! j)) = None))"
proof (intro conjI)
  show "strongestProtonated env mol abpairs = None \<longleftrightarrow>
      (\<forall>k<length abpairs. SubstructMatch1 env mol (fst (abpairs ! k)) = None)"
    by (simp add: strongestProtonated_def strongestProtonated_scan_None)
qed (rule strongestProtonated_Some_iff weakestIonized_None_iff weakestIonized_Some_iff)+

theorem scans_first_match_witness:
  "strongestProtonated atom_env hydroxy_thiolate [hydroxy_pair, thiol_pair] = Some (0, [0]) \<and>
   weakestIonized atom_env hydroxy_thiolate [hydroxy_pair, thiol_pair] = Some (1, [1])"
proof -
  note t = scans_first_match[of atom_env hydroxy_thiolate "[hydroxy_pair, thiol_pair]" 0 "[0]" 1 "[1]"]
  have m0: "SubstructMatch1 atom_env hydroxy_thiolate (fst hydroxy_pair) = Some [(0, 0)]"
    by (simp add: example_simps)
  have m1: "SubstructMatch1 atom_env hydroxy_thiolate (snd thiol_pair) = Some [(0, 1)]"
    by (simp add: example_simps)
  have "strongestProtonated atom_env hydroxy_thiolate [hydroxy_pair, thiol_pair] = Some (0, [0])"
    by (rule iffD2[OF t[THEN conjunct2, THEN conjunct1]]) (simp add: m0)
  moreover have "weakestIonized atom_env hydroxy_thiolate [hydroxy_pair, thiol_pair] = Some (1, [1])"
    by (rule iffD2[OF t[THEN conjunct2, THEN conjunct2, THEN conjunct2]]) (simp add: m1)
  ultimately show ?thesis by simp
qed

subsection \<open>Termination of the balancing loop\<close>

lemma balancing_loop_invariant:
  assumes "balancing_loop env abpairs mol moved n = (res, moved', n')"
    and "moved \<subseteq> all_pairs (getNumAtoms mol)" and "card moved = n"
  shows "moved' \<subseteq> all_pairs (getNumAtoms mol) \<and> card moved' = n' \<and> moved \<subseteq> moved'"
  using assms
proof (induction env abpairs mol moved n rule: balancing_loop.induct)
  case (1 env abpairs mol already_moved transfers)
  show ?case
  proof (cases "balancing_step env abpairs mol already_moved")
    case (Inl e)
    with "1.prems" show ?thesis by (simp add: balancing_loop.simps[of env abpairs mol])
  next
    case (Inr st)
    show ?thesis
    proof (cases st)
      case Stop
      with Inr "1.prems" show ?thesis by (simp add: balancing_loop.simps[of env abpairs mol])
    next
      case (Moved mol1 moved1)
      with Inr have st: "balancing_step env abpairs mol already_moved = Inr (Moved mol1 moved1)"
        by simp
      from balancing_step_Moved[OF st] obtain k where
        n: "getNumAtoms mol1 = getNumAtoms mol" and
        k: "k \<in> all_pairs (getNumAtoms mol)" "k \<notin> already_moved" "moved1 = insert k already_moved"
        by blast
      have fin: "finite already_moved"
        using "1.prems"(2) finite_all_pairs by (rule finite_subset)
      have loop: "balancing_loop env abpairs mol1 moved1 (transfers + 1) = (res, moved', n')"
        using "1.prems"(1) st by (simp add: balancing_loop.simps[of env abpairs mol])
      have sub: "moved1 \<subseteq> all_pairs (getNumAtoms mol1)"
        using k "1.prems"(2) n by simp
      have card: "card moved1 = transfers + 1"
        using k fin "1.prems"(3) by simp
      from "1.IH"[OF Inr Moved loop sub card] n k show ?thesis by auto
    qed
  qed
qed

lemma all_pairs_card_le:
  assumes "S \<subseteq> all_pairs n"
  shows "card S \<le> n * (n - 1) div 2"
  using card_mono[OF finite_all_pairs assms] by (simp add: card_all_pairs)

lemma balancing_step_key_used:
  assumes "strongestProtonated env mol abpairs = Some (ppos, poccur)"
    and "weakestIonized env mol abpairs = Some (ipos, ioccur)"
    and "poccur \<noteq> []" and "ioccur \<noteq> []"
    and "sorted_key (last poccur) (last ioccur) \<in> moved"
  shows "balancing_step env abpairs mol moved = Inr Stop"
  using assms by (simp add: balancing_step_def)

lemma example_transfer_step:
  "balancing_step atom_env [hydroxy_pair, thiol_pair] hydroxy_thiolate {} =
     Inr (Moved thiol_alkoxide {(0, 1)})"
  by code_simp

lemma example_transfer_loop:
  "balancing_loop atom_env [hydroxy_pair, thiol_pair] hydroxy_thiolate {} 0 =
     (Inr thiol_alkoxide, {(0, 1)}, 1)"
  by code_simp

text \<open>
  Claim C1. For a molecule with \<open>N\<close> atoms the balancing loop of \<open>reionizeInPlace\<close>
  ends after at most \<open>N * (N - 1) / 2\<close> proton transfers. The loop is a total
  function (its termination is proved with its definition), and whichever way it
  ends, normally or by an error, the number of transfers it performed is the
  number of pairs in \<open>already_moved\<close>, all of them pairs \<open>a < b < N\<close>. A pass that
  performs a transfer has chosen two different atoms whose sorted pair was not in
  the set and puts it there; a pass that finds the sorted pair of its two sites in
  the set stops the loop. So no unordered pair of atoms serves two transfers of
  one call.
\<close>

theorem balancing_loop_bounded:
  "(case balancing_loop env abpairs mol {} 0 of
      (res, moved', transfers) \<Rightarrow>
        transfers \<le> getNumAtoms mol * (getNumAtoms mol - 1) div 2 \<and>
        card moved' = transfers \<and> moved' \<subseteq> all_pairs (getNumAtoms mol)) \<and>
   (balancing_step env abpairs m moved = Inr (Moved m1 moved1) \<longrightarrow>
      (\<exists>acid base. acid \<noteq> base \<and> sorted_key acid base \<notin> moved \<and>
         moved1 = insert (sorted_key acid base) moved \<and>
         proton_transfer env m acid base = Inr m1)) \<and>
   (strongestProtonated env m2 abpairs = Some (ppos, poccur) \<and>
    weakestIonized env m2 abpairs = Some (ipos, ioccur) \<and>
    poccur \<noteq> [] \<and> ioccur \<noteq> [] \<and> sorted_key (last poccur) (last ioccur) \<in> moved2 \<longrightarrow>
      balancing_step env abpairs m2 moved2 = Inr Stop)"
proof (intro conjI impI)
  obtain res moved' transfers where
    r: "balancing_loop env abpairs mol {} 0 = (res, moved', transfers)"
    by (cases "balancing_loop env abpairs mol {} 0") auto
  from balancing_loop_invariant[OF r] have
    inv: "moved' \<subseteq> all_pairs (getNumAtoms mol)" "card moved' = transfers"
    by simp_all
  from all_pairs_card_le[OF inv(1)] inv r
  show "case balancing_loop env abpairs mol {} 0 of
      (res, moved', transfers) \<Rightarrow>
        transfers \<le> getNumAtoms mol * (getNumAtoms mol - 1) div 2 \<and>
        card moved' = transfers \<and> moved' \<subseteq> all_pairs (getNumAtoms mol)"
    by simp
next
  assume "balancing_step env abpairs m moved = Inr (Moved m1 moved1)"
  from balancing_step_MovedD[OF this]
  show "\<exists>acid base. acid \<noteq> base \<and> sorted_key acid base \<notin> moved \<and>
         moved1 = insert (sorted_key acid base) moved \<and>
         proton_transfer env m acid base = Inr m1"
    by blast
next
  assume "strongestProtonated env m2 abpairs = Some (ppos, poccur) \<and>
    weakestIonized env m2 abpairs = Some (ipos, ioccur) \<and>
    poccur \<noteq> [] \<and> ioccur \<noteq> [] \<and> sorted_key (last poccur) (last ioccur) \<in> moved2"
  then show "balancing_step env abpairs m2 moved2 = Inr Stop"
    by (simp add: balancing_step_key_used)
qed

theorem balancing_loop_bounded_witness:
  "balancing_loop atom_env [hydroxy_pair, thiol_pair] hydroxy_thiolate {} 0 =
     (Inr thiol_alkoxide, {(0, 1)}, 1) \<and>
   (1::nat) \<le> getNumAtoms hydroxy_thiolate * (getNumAtoms hydroxy_thiolate - 1) div 2 \<and>
   balancing_step atom_env [hydroxy_pair, thiol_pair] hydroxy_thiolate {} =
     Inr (Moved thiol_alkoxide {(0, 1)}) \<and>
   (\<exists>acid base. acid \<noteq> base \<and> sorted_key acid base \<notin> {} \<and>
      {(0, 1)} = insert (sorted_key acid base) {} \<and>
      proton_transfer atom_env hydroxy_thiolate acid base = Inr thiol_alkoxide) \<and>
   balancing_step atom_env [hydroxy_pair, thiol_pair] hydroxy_thiolate {(0, 1)} = Inr Stop"
proof -
  note t = balancing_loop_bounded[where env = atom_env and abpairs = "[hydroxy_pair, thiol_pair]"
      and mol = hydroxy_thiolate and m = hydroxy_thiolate and moved = "{}"
      and ?m1.0 = thiol_alkoxide and ?moved1.0 = "{(0, 1)}" and ?m2.0 = hydroxy_thiolate
      and ppos = 0 and poccur = "[0]" and ipos = 1 and ioccur = "[1]" and ?moved2.0 = "{(0, 1)}"]
  have sp: "strongestProtonated atom_env hydroxy_thiolate [hydroxy_pair, thiol_pair] = Some (0, [0])"
    by code_simp
  have wi: "weakestIonized atom_env hydroxy_thiolate [hydroxy_pair, thiol_pair] = Some (1, [1])"
    by code_simp
  have key: "sorted_key (last [0]) (last [1]) \<in> {(0, 1)}"
    by (simp add: sorted_key_def)
  from t[THEN conjunct1, unfolded example_transfer_loop]
  have "(1::nat) \<le> getNumAtoms hydroxy_thiolate * (getNumAtoms hydroxy_thiolate - 1) div 2"
    by simp
  moreover from t[THEN conjunct2, THEN conjunct1] example_transfer_step
  have "\<exists>acid base. acid \<noteq> base \<and> sorted_key acid base \<notin> {} \<and>
      {(0, 1)} = insert (sorted_key acid base) {} \<and>
      proton_transfer atom_env hydroxy_thiolate acid base = Inr thiol_alkoxide"
    by blast
  moreover from t[THEN conjunct2, THEN conjunct2] sp wi key
  have "balancing_step atom_env [hydroxy_pair, thiol_pair] hydroxy_thiolate {(0, 1)} = Inr Stop"
    by simp
  ultimately show ?thesis
    using example_transfer_loop example_transfer_step by simp
qed

subsection \<open>One proton transfer\<close>

lemma atoms_updAtom [simp]:
  "atoms (updAtom mol idx f) = (atoms mol)[idx := f (atoms mol ! idx)]"
  by (simp add: updAtom_def)

lemma atoms_atomUpdatePropertyCache:
  "atoms (atomUpdatePropertyCache env mol idx) =
     (atoms mol)[idx := (atoms mol ! idx)\<lparr>explicitValence := calcExplicitValence env mol idx,
                                           implicitValence := calcImplicitValence env mol idx\<rparr>]"
  by (simp add: atomUpdatePropertyCache_def)

lemma proton_transfer_acid:
  assumes "proton_transfer env mol p i = Inr mol'" and "p \<noteq> i"
  shows "formalCharge (atoms mol' ! p) = formalCharge (atoms mol ! p) - 1"
    and "numExplicitHs (atoms mol' ! p) =
           (if getNumImplicitHs (atoms mol ! p) = 0 \<and> numExplicitHs (atoms mol ! p) > 0
            then numExplicitHs (atoms mol ! p) - 1 else numExplicitHs (atoms mol ! p))"
  using assms
  by (auto simp: proton_transfer_def getAtomWithIdx_def Let_def atoms_atomUpdatePropertyCache
      getNumImplicitHs_def getNumAtoms_def split: if_splits)

lemma proton_transfer_base:
  assumes "proton_transfer env mol p i = Inr mol'" and "p \<noteq> i"
  shows "formalCharge (atoms mol' ! i) = formalCharge (atoms mol ! i) + 1"
    and "numExplicitHs (atoms mol' ! i) =
           (if noImplicit (atoms mol ! i) \<or>
               ((atomicNum (atoms mol ! p) = 7 \<or> atomicNum (atoms mol ! p) = 15) \<and>
                isAromatic (atoms mol ! p)) \<or>
               getTotalValence (atoms mol ! i)
                 \<notin> set (getValenceList env (atomicNum (atoms mol ! i)))
            then numExplicitHs (atoms mol ! i) + 1 else numExplicitHs (atoms mol ! i))"
  using assms
  by (auto simp: proton_transfer_def getAtomWithIdx_def Let_def atoms_atomUpdatePropertyCache
      getTotalValence_def getNumAtoms_def split: if_splits)

lemma proton_transfer_others:
  assumes "proton_transfer env mol p i = Inr mol'" and "j \<noteq> p" and "j \<noteq> i"
  shows "atoms mol' ! j = atoms mol ! j"
  using assms
  by (auto simp: proton_transfer_def getAtomWithIdx_def Let_def atoms_atomUpdatePropertyCache
      getNumAtoms_def split: if_splits)

lemma sum_list_map_update:
  fixes f :: "'a \<Rightarrow> int"
  assumes "k < length xs"
  shows "sum_list (map f (xs[k := y])) = sum_list (map f xs) - f (xs ! k) + f y"
  using assms
proof (induction xs arbitrary: k)
  case Nil
  then show ?case by simp
next
  case (Cons x xs)
  then show ?case by (cases k) simp_all
qed


lemma proton_transfer_total_charge:
  assumes "proton_transfer env mol p i = Inr mol'" and "p \<noteq> i"
  shows "getFormalCharge mol' = getFormalCharge mol"
proof -
  from proton_transfer_Inr[OF assms(1)] have
    n: "length (atoms mol') = length (atoms mol)" "p < length (atoms mol)" "i < length (atoms mol)"
    by (simp_all add: getNumAtoms_def)
  have eq: "atoms mol' = (atoms mol)[p := atoms mol' ! p, i := atoms mol' ! i]"
  proof (rule nth_equalityI)
    show "length (atoms mol') = length ((atoms mol)[p := atoms mol' ! p, i := atoms mol' ! i])"
      using n by simp
  next
    fix j assume "j < length (atoms mol')"
    then show "atoms mol' ! j = (atoms mol)[p := atoms mol' ! p, i := atoms mol' ! i] ! j"
      using n assms(2) proton_transfer_others[OF assms(1), of j]
      by (cases "j = i"; cases "j = p") simp_all
  qed
  have "sum_list (map formalCharge (atoms mol')) =
        sum_list (map formalCharge ((atoms mol)[p := atoms mol' ! p, i := atoms mol' ! i]))"
    using eq by simp
  also have "\<dots> = sum_list (map formalCharge (atoms mol)) - formalCharge (atoms mol ! p)
        + formalCharge (atoms mol' ! p) - formalCharge (atoms mol ! i) + formalCharge (atoms mol' ! i)"
    using n assms(2) by (simp add: sum_list_map_update)
  also have "\<dots> = sum_list (map formalCharge (atoms mol))"
    using proton_transfer_acid(1)[OF assms] proton_transfer_base(1)[OF assms] by simp
  finally show ?thesis by (simp add: getFormalCharge_def)
qed

lemma balancing_step_sites:
  assumes "balancing_step env abpairs mol moved = Inr (Moved mol' moved')"
    and "strongestProtonated env mol abpairs = Some (ppos, poccur)"
    and "weakestIonized env mol abpairs = Some (ipos, ioccur)"
  shows "last poccur \<noteq> last ioccur"
    and "proton_transfer env mol (last poccur) (last ioccur) = Inr mol'"
  using balancing_step_MovedD[OF assms(1)] assms(2,3) by auto

lemma proton_transfer_base_charged:
  assumes "proton_transfer env mol p i = Inr mol'"
  shows "mol' = atomUpdatePropertyCache env
           (if noImplicit (atoms (base_charged env mol p i) ! i) \<or>
               ((atomicNum (atoms (base_charged env mol p i) ! p) = 7 \<or>
                 atomicNum (atoms (base_charged env mol p i) ! p) = 15) \<and>
                isAromatic (atoms (base_charged env mol p i) ! p)) \<or>
               getTotalValence (atoms (base_charged env mol p i) ! i)
                 \<notin> set (getValenceList env (atomicNum (atoms (base_charged env mol p i) ! i)))
            then updAtom (base_charged env mol p i) i (\<lambda>a. a\<lparr>numExplicitHs := numExplicitHs a + 1\<rparr>)
            else base_charged env mol p i) i"
  using assms
  by (auto simp: proton_transfer_def base_charged_def Let_def split: sum.splits)

lemma example_valence_transfer_step:
  "balancing_step valence_env [thiol_site, hydroxy_site] mercapto_methoxide {} =
     Inr (Moved thiolate_methanol {(0, 2)})"
  by code_simp

text \<open>
  Claim C3, as the code has it. In each proton transfer of the balancing phase the
  acid atom (the last atom of the match of \<open>strongestProtonated\<close>) has its formal
  charge decremented by one, and its explicit hydrogen count decremented by one
  exactly when it has no implicit hydrogen and at least one explicit hydrogen.
  The base atom (the last atom of the match of \<open>weakestIonized\<close>) has its formal
  charge incremented by one, and its explicit hydrogen count incremented by one
  exactly when the base atom disallows implicit hydrogens, or the acid atom is an
  aromatic nitrogen or phosphorus, or the total valence that the base atom has
  cached when the transfer begins is not in the valence list of its element.
  (The test reads \<^verbatim>\<open>getTotalValence\<close> after the charge of the base atom is set and
  before the refresh that ends the transfer, and setting the charge leaves the
  cached valence as it is.)
\<close>

theorem proton_transfer_effect:
  assumes "balancing_step env abpairs mol moved = Inr (Moved mol' moved')"
    and "strongestProtonated env mol abpairs = Some (ppos, poccur)"
    and "weakestIonized env mol abpairs = Some (ipos, ioccur)"
    and "a = atoms mol ! last poccur" and "b = atoms mol ! last ioccur"
  shows "formalCharge (atoms mol' ! last poccur) = formalCharge a - 1 \<and>
         numExplicitHs (atoms mol' ! last poccur) =
           (if getNumImplicitHs a = 0 \<and> 0 < numExplicitHs a
            then numExplicitHs a - 1 else numExplicitHs a) \<and>
         formalCharge (atoms mol' ! last ioccur) = formalCharge b + 1 \<and>
         numExplicitHs (atoms mol' ! last ioccur) =
           (if noImplicit b \<or>
               ((atomicNum a = 7 \<or> atomicNum a = 15) \<and> isAromatic a) \<or>
               getTotalValence b \<notin> set (getValenceList env (atomicNum b))
            then numExplicitHs b + 1 else numExplicitHs b)"
proof -
  note s = balancing_step_sites[OF assms(1-3)]
  note acid = proton_transfer_acid[OF s(2) s(1)]
  note base = proton_transfer_base[OF s(2) s(1)]
  show ?thesis unfolding assms(4,5) by (intro conjI acid base)
qed

theorem proton_transfer_effect_witness:
  "balancing_step atom_env [hydroxy_pair, thiol_pair] hydroxy_thiolate {} =
     Inr (Moved thiol_alkoxide {(0, 1)}) \<and>
   strongestProtonated atom_env hydroxy_thiolate [hydroxy_pair, thiol_pair] = Some (0, [0]) \<and>
   weakestIonized atom_env hydroxy_thiolate [hydroxy_pair, thiol_pair] = Some (1, [1]) \<and>
   formalCharge (atoms thiol_alkoxide ! 0) = - 1 \<and> numExplicitHs (atoms thiol_alkoxide ! 0) = 0 \<and>
   formalCharge (atoms thiol_alkoxide ! 1) = 0 \<and> numExplicitHs (atoms thiol_alkoxide ! 1) = 1 \<and>
   balancing_step valence_env [thiol_site, hydroxy_site] mercapto_methoxide {} =
     Inr (Moved thiolate_methanol {(0, 2)}) \<and>
   strongestProtonated valence_env mercapto_methoxide [thiol_site, hydroxy_site] = Some (0, [0]) \<and>
   weakestIonized valence_env mercapto_methoxide [thiol_site, hydroxy_site] = Some (1, [2]) \<and>
   getTotalValence (atoms mercapto_methoxide ! 2) = 1 \<and>
   getValenceList valence_env (atomicNum (atoms mercapto_methoxide ! 2)) = [2] \<and>
   formalCharge (atoms thiolate_methanol ! 0) = - 1 \<and> numExplicitHs (atoms thiolate_methanol ! 0) = 0 \<and>
   formalCharge (atoms thiolate_methanol ! 2) = 0 \<and> numExplicitHs (atoms thiolate_methanol ! 2) = 1"
proof -
  have sp: "strongestProtonated atom_env hydroxy_thiolate [hydroxy_pair, thiol_pair] = Some (0, [0])"
    by code_simp
  have wi: "weakestIonized atom_env hydroxy_thiolate [hydroxy_pair, thiol_pair] = Some (1, [1])"
    by code_simp
  have a: "atoms hydroxy_thiolate ! last [0] = bracket_atom 8 0 1"
    by (simp add: hydroxy_thiolate_def)
  have b: "atoms hydroxy_thiolate ! last [1] = bracket_atom 16 (- 1) 0"
    by (simp add: hydroxy_thiolate_def)
  from proton_transfer_effect[OF example_transfer_step sp wi a[symmetric] b[symmetric]]
  have r1: "formalCharge (atoms thiol_alkoxide ! 0) = - 1 \<and> numExplicitHs (atoms thiol_alkoxide ! 0) = 0 \<and>
        formalCharge (atoms thiol_alkoxide ! 1) = 0 \<and> numExplicitHs (atoms thiol_alkoxide ! 1) = 1"
    by (simp add: bracket_atom_def getNumImplicitHs_def)
  have sp2: "strongestProtonated valence_env mercapto_methoxide [thiol_site, hydroxy_site] = Some (0, [0])"
    by code_simp
  have wi2: "weakestIonized valence_env mercapto_methoxide [thiol_site, hydroxy_site] = Some (1, [2])"
    by code_simp
  have a2: "atoms mercapto_methoxide ! last [0] = plain_atom 16 0 1 1"
    by (simp add: mercapto_methoxide_def)
  have b2: "atoms mercapto_methoxide ! last [2] = plain_atom 8 (- 1) 1 0"
    by (simp add: mercapto_methoxide_def)
  have v: "getTotalValence (atoms mercapto_methoxide ! 2) = 1"
    by (simp add: getTotalValence_def mercapto_methoxide_def plain_atom_def)
  have l: "getValenceList valence_env (atomicNum (atoms mercapto_methoxide ! 2)) = [2]"
    by (simp add: valence_env_def example_valence_list_def mercapto_methoxide_def plain_atom_def)
  have l': "getValenceList valence_env 8 = [2]"
    by (simp add: valence_env_def example_valence_list_def)
  from proton_transfer_effect[OF example_valence_transfer_step sp2 wi2 a2[symmetric] b2[symmetric]]
  have r2: "formalCharge (atoms thiolate_methanol ! 0) = - 1 \<and>
        numExplicitHs (atoms thiolate_methanol ! 0) = 0 \<and>
        formalCharge (atoms thiolate_methanol ! 2) = 0 \<and>
        numExplicitHs (atoms thiolate_methanol ! 2) = 1"
    by (simp add: plain_atom_def getNumImplicitHs_def getTotalValence_def l')
  from example_transfer_step sp wi r1 example_valence_transfer_step sp2 wi2 v l r2
  show ?thesis by (intro conjI) simp_all
qed

text \<open>
  Claim C3 as it is written fails on the anion of mercaptomethanol whose atoms allow
  implicit hydrogens. The proton moves from the sulfur to the oxygen. The
  oxygen allows implicit hydrogens and the acid atom is a sulfur. The total
  valence of the oxygen once its charge is zero is 2, both as a refresh at the
  point of the test would give it and as the oxygen has it when the transfer has
  ended, and 2 is in the valence list of oxygen: none of the three conditions of
  the claim holds. Still the explicit hydrogen count of the oxygen goes from 0
  to 1, because the valence that the test reads is the cached one of the anion.
\<close>

theorem proton_transfer_valence_counterexample:
  "balancing_step valence_env [thiol_site, hydroxy_site] mercapto_methoxide {} =
     Inr (Moved thiolate_methanol {(0, 2)}) \<and>
   strongestProtonated valence_env mercapto_methoxide [thiol_site, hydroxy_site] = Some (0, [0]) \<and>
   weakestIonized valence_env mercapto_methoxide [thiol_site, hydroxy_site] = Some (1, [2]) \<and>
   \<not> noImplicit (atoms mercapto_methoxide ! 2) \<and>
   atomicNum (atoms mercapto_methoxide ! 0) = 16 \<and>
   getValenceList valence_env (atomicNum (atoms mercapto_methoxide ! 2)) = [2] \<and>
   refreshed_total_valence valence_env (base_charged valence_env mercapto_methoxide 0 2) 2 = 2 \<and>
   getTotalValence (atoms thiolate_methanol ! 2) = 2 \<and>
   numExplicitHs (atoms mercapto_methoxide ! 2) = 0 \<and>
   numExplicitHs (atoms thiolate_methanol ! 2) = 1"
proof (intro conjI)
  show "balancing_step valence_env [thiol_site, hydroxy_site] mercapto_methoxide {} =
     Inr (Moved thiolate_methanol {(0, 2)})"
    by code_simp
  show "strongestProtonated valence_env mercapto_methoxide [thiol_site, hydroxy_site] = Some (0, [0])"
    by code_simp
  show "weakestIonized valence_env mercapto_methoxide [thiol_site, hydroxy_site] = Some (1, [2])"
    by code_simp
  show "\<not> noImplicit (atoms mercapto_methoxide ! 2)"
    by (simp add: mercapto_methoxide_def plain_atom_def)
  show "atomicNum (atoms mercapto_methoxide ! 0) = 16"
    by (simp add: mercapto_methoxide_def plain_atom_def)
  show "getValenceList valence_env (atomicNum (atoms mercapto_methoxide ! 2)) = [2]"
    by (simp add: valence_env_def example_valence_list_def mercapto_methoxide_def plain_atom_def)
  show "refreshed_total_valence valence_env (base_charged valence_env mercapto_methoxide 0 2) 2 = 2"
    by code_simp
  show "getTotalValence (atoms thiolate_methanol ! 2) = 2"
    by (simp add: getTotalValence_def thiolate_methanol_def plain_atom_def)
  show "numExplicitHs (atoms mercapto_methoxide ! 2) = 0"
    by (simp add: mercapto_methoxide_def plain_atom_def)
  show "numExplicitHs (atoms thiolate_methanol ! 2) = 1"
    by (simp add: thiolate_methanol_def plain_atom_def)
qed

text \<open>
  Claim C9. Every proton transfer performed by the balancing phase leaves the total
  formal charge of the molecule (the sum over all atoms) as it was: the charge of
  the acid atom goes down by exactly one, the charge of the base atom goes up by
  exactly one, and the charge of no other atom changes.
\<close>

theorem proton_transfer_conserves_charge:
  assumes "balancing_step env abpairs mol moved = Inr (Moved mol' moved')"
    and "strongestProtonated env mol abpairs = Some (ppos, poccur)"
    and "weakestIonized env mol abpairs = Some (ipos, ioccur)"
  shows "getFormalCharge mol' = getFormalCharge mol \<and>
         formalCharge (atoms mol' ! last poccur) = formalCharge (atoms mol ! last poccur) - 1 \<and>
         formalCharge (atoms mol' ! last ioccur) = formalCharge (atoms mol ! last ioccur) + 1 \<and>
         (\<forall>j. j \<noteq> last poccur \<and> j \<noteq> last ioccur \<longrightarrow>
              formalCharge (atoms mol' ! j) = formalCharge (atoms mol ! j))"
proof -
  note s = balancing_step_sites[OF assms]
  from proton_transfer_total_charge[OF s(2) s(1)] proton_transfer_acid(1)[OF s(2) s(1)]
    proton_transfer_base(1)[OF s(2) s(1)] proton_transfer_others[OF s(2)]
  show ?thesis by simp
qed

theorem proton_transfer_conserves_charge_witness:
  "balancing_step atom_env [hydroxy_pair, thiol_pair] hydroxy_thiolate {} =
     Inr (Moved thiol_alkoxide {(0, 1)}) \<and>
   strongestProtonated atom_env hydroxy_thiolate [hydroxy_pair, thiol_pair] = Some (0, [0]) \<and>
   weakestIonized atom_env hydroxy_thiolate [hydroxy_pair, thiol_pair] = Some (1, [1]) \<and>
   getFormalCharge thiol_alkoxide = getFormalCharge hydroxy_thiolate \<and>
   getFormalCharge hydroxy_thiolate = - 1 \<and>
   formalCharge (atoms thiol_alkoxide ! 2) = formalCharge (atoms hydroxy_thiolate ! 2)"
proof -
  have sp: "strongestProtonated atom_env hydroxy_thiolate [hydroxy_pair, thiol_pair] = Some (0, [0])"
    by code_simp
  have wi: "weakestIonized atom_env hydroxy_thiolate [hydroxy_pair, thiol_pair] = Some (1, [1])"
    by code_simp
  have c: "getFormalCharge hydroxy_thiolate = - 1"
    by (simp add: getFormalCharge_def hydroxy_thiolate_def bracket_atom_def)
  from proton_transfer_conserves_charge[OF example_transfer_step sp wi]
  have "getFormalCharge thiol_alkoxide = getFormalCharge hydroxy_thiolate \<and>
        formalCharge (atoms thiol_alkoxide ! 2) = formalCharge (atoms hydroxy_thiolate ! 2)"
    by simp
  with example_transfer_step sp wi c show ?thesis by simp
qed

subsection \<open>How the balancing loop stops\<close>

lemma balancing_step_Stop_iff:
  "balancing_step env abpairs mol moved = Inr Stop \<longleftrightarrow>
     strongestProtonated env mol abpairs = None \<or>
     weakestIonized env mol abpairs = None \<or>
     (\<exists>ppos poccur ipos ioccur.
        strongestProtonated env mol abpairs = Some (ppos, poccur) \<and>
        weakestIonized env mol abpairs = Some (ipos, ioccur) \<and>
        (\<not> ppos < ipos \<or>
         (poccur \<noteq> [] \<and> ioccur \<noteq> [] \<and>
          (last poccur = last ioccur \<or> sorted_key (last poccur) (last ioccur) \<in> moved))))"
  by (auto simp: balancing_step_def Let_def split: option.splits sum.splits)

text \<open>
  Claim C4. The balancing loop stops, without an error, in exactly these cases: one
  of the two scans finds nothing; the rank of the acid is not strictly less than
  the rank of the base; the acid site and the base site are the same atom; the
  sorted pair of the two sites is already in \<open>already_moved\<close>. (The last two tests
  read the last atom of each match, so each match has an atom.) When the loop
  stops, its result is the molecule as it is at that pass: the pass performs no
  transfer, and a pass that performed a transfer hands its molecule to the next
  pass, so what earlier passes changed is kept.
\<close>

theorem balancing_loop_stops:
  "(balancing_step env abpairs mol moved = Inr Stop \<longleftrightarrow>
      strongestProtonated env mol abpairs = None \<or>
      weakestIonized env mol abpairs = None \<or>
      (\<exists>ppos poccur ipos ioccur.
         strongestProtonated env mol abpairs = Some (ppos, poccur) \<and>
         weakestIonized env mol abpairs = Some (ipos, ioccur) \<and>
         (\<not> ppos < ipos \<or>
          (poccur \<noteq> [] \<and> ioccur \<noteq> [] \<and>
           (last poccur = last ioccur \<or> sorted_key (last poccur) (last ioccur) \<in> moved))))) \<and>
   (balancing_step env abpairs mol moved = Inr Stop \<longrightarrow>
      balancing_loop env abpairs mol moved n = (Inr mol, moved, n)) \<and>
   (balancing_step env abpairs mol moved = Inr (Moved mol1 moved1) \<longrightarrow>
      balancing_loop env abpairs mol moved n = balancing_loop env abpairs mol1 moved1 (n + 1))"
proof (intro conjI impI)
  show "balancing_step env abpairs mol moved = Inr Stop \<longleftrightarrow>
      strongestProtonated env mol abpairs = None \<or>
      weakestIonized env mol abpairs = None \<or>
      (\<exists>ppos poccur ipos ioccur.
         strongestProtonated env mol abpairs = Some (ppos, poccur) \<and>
         weakestIonized env mol abpairs = Some (ipos, ioccur) \<and>
         (\<not> ppos < ipos \<or>
          (poccur \<noteq> [] \<and> ioccur \<noteq> [] \<and>
           (last poccur = last ioccur \<or> sorted_key (last poccur) (last ioccur) \<in> moved))))"
    by (rule balancing_step_Stop_iff)
next
  assume "balancing_step env abpairs mol moved = Inr Stop"
  then show "balancing_loop env abpairs mol moved n = (Inr mol, moved, n)"
    by (simp add: balancing_loop.simps[of env abpairs mol])
next
  assume "balancing_step env abpairs mol moved = Inr (Moved mol1 moved1)"
  then show "balancing_loop env abpairs mol moved n = balancing_loop env abpairs mol1 moved1 (n + 1)"
    by (simp add: balancing_loop.simps[of env abpairs mol])
qed

theorem balancing_loop_stops_witness:
  "balancing_step atom_env [hydroxy_pair, thiol_pair] thiol_alkoxide {(0, 1)} = Inr Stop \<and>
   balancing_loop atom_env [hydroxy_pair, thiol_pair] thiol_alkoxide {(0, 1)} 1 =
     (Inr thiol_alkoxide, {(0, 1)}, 1) \<and>
   balancing_loop atom_env [hydroxy_pair, thiol_pair] hydroxy_thiolate {} 0 =
     (Inr thiol_alkoxide, {(0, 1)}, 1) \<and>
   balancing_step atom_env [oh_pair, water_pair] hydroxide {} = Inr Stop \<and>
   balancing_loop atom_env [oh_pair, water_pair] hydroxide {} 0 = (Inr hydroxide, {}, 0)"
proof -
  note t1 = balancing_loop_stops[where env = atom_env and abpairs = "[hydroxy_pair, thiol_pair]"
      and mol = thiol_alkoxide and moved = "{(0, 1)}" and n = 1]
  note t2 = balancing_loop_stops[where env = atom_env and abpairs = "[hydroxy_pair, thiol_pair]"
      and mol = hydroxy_thiolate and moved = "{}" and n = 0 and ?mol1.0 = thiol_alkoxide
      and ?moved1.0 = "{(0, 1)}"]
  note t3 = balancing_loop_stops[where env = atom_env and abpairs = "[oh_pair, water_pair]"
      and mol = hydroxide and moved = "{}" and n = 0]
  have sp1: "strongestProtonated atom_env thiol_alkoxide [hydroxy_pair, thiol_pair] = Some (1, [1])"
    by code_simp
  have wi1: "weakestIonized atom_env thiol_alkoxide [hydroxy_pair, thiol_pair] = Some (0, [0])"
    by code_simp
  have stop1: "balancing_step atom_env [hydroxy_pair, thiol_pair] thiol_alkoxide {(0, 1)} = Inr Stop"
    by (rule iffD2[OF t1[THEN conjunct1]]) (simp add: sp1 wi1)
  from t1[THEN conjunct2, THEN conjunct1] stop1
  have loop1: "balancing_loop atom_env [hydroxy_pair, thiol_pair] thiol_alkoxide {(0, 1)} 1 =
     (Inr thiol_alkoxide, {(0, 1)}, 1)"
    by simp
  from t2[THEN conjunct2, THEN conjunct2] example_transfer_step
  have "balancing_loop atom_env [hydroxy_pair, thiol_pair] hydroxy_thiolate {} 0 =
        balancing_loop atom_env [hydroxy_pair, thiol_pair] thiol_alkoxide {(0, 1)} (0 + 1)"
    by blast
  with loop1 have loop2: "balancing_loop atom_env [hydroxy_pair, thiol_pair] hydroxy_thiolate {} 0 =
     (Inr thiol_alkoxide, {(0, 1)}, 1)"
    by simp
  have sp3: "strongestProtonated atom_env hydroxide [oh_pair, water_pair] = Some (0, [0])"
    by code_simp
  have wi3: "weakestIonized atom_env hydroxide [oh_pair, water_pair] = Some (1, [0])"
    by code_simp
  have stop3: "balancing_step atom_env [oh_pair, water_pair] hydroxide {} = Inr Stop"
    by (rule iffD2[OF t3[THEN conjunct1]]) (simp add: sp3 wi3)
  from t3[THEN conjunct2, THEN conjunct1] stop3
  have loop3: "balancing_loop atom_env [oh_pair, water_pair] hydroxide {} 0 = (Inr hydroxide, {}, 0)"
    by simp
  from stop1 loop1 loop2 stop3 loop3 show ?thesis by simp
qed

subsection \<open>Deficit compensation\<close>

lemma ionizeSite_effect:
  assumes "idx < getNumAtoms mol"
  shows "\<exists>mol1. ionizeSite env mol idx = Inr mol1 \<and> getNumAtoms mol1 = getNumAtoms mol \<and>
           formalCharge (atoms mol1 ! idx) = formalCharge (atoms mol ! idx) - 1 \<and>
           numExplicitHs (atoms mol1 ! idx) =
             (if 0 < numExplicitHs (atoms mol ! idx) then numExplicitHs (atoms mol ! idx) - 1
              else numExplicitHs (atoms mol ! idx)) \<and>
           (\<forall>j. j \<noteq> idx \<longrightarrow> atoms mol1 ! j = atoms mol ! j)"
  using assms
  by (simp add: ionizeSite_def getAtomWithIdx_def Let_def atoms_atomUpdatePropertyCache getNumAtoms_def)

lemma ionizeSite_Inr:
  assumes "ionizeSite env mol idx = Inr mol1"
  shows "getFormalCharge mol1 = getFormalCharge mol - 1"
proof -
  have idx: "idx < length (atoms mol)"
    using assms by (auto simp: ionizeSite_def getAtomWithIdx_def getNumAtoms_def split: if_splits)
  then obtain a where "atoms mol1 = (atoms mol)[idx := a]" "formalCharge a = formalCharge (atoms mol ! idx) - 1"
    using assms
    by (auto simp: ionizeSite_def getAtomWithIdx_def Let_def atoms_atomUpdatePropertyCache getNumAtoms_def
        split: if_splits)
  with idx show ?thesis
    by (simp add: getFormalCharge_def sum_list_map_update)
qed

lemma deficit_loop_result:
  assumes "deficit_loop env abpairs mol d = Inr (mol', d')" and "0 < d"
  shows "0 \<le> d' \<and> (d' = 0 \<or> strongestProtonated env mol' abpairs = None) \<and>
         getFormalCharge mol' = getFormalCharge mol - (d - d')"
  using assms
proof (induction env abpairs mol d rule: deficit_loop.induct)
  case (1 env abpairs mol charge_diff)
  show ?case
  proof (cases "strongestProtonated env mol abpairs")
    case None
    with "1.prems" show ?thesis by (simp add: deficit_loop.simps[of env abpairs mol])
  next
    case (Some r)
    obtain ppos poccur where r: "r = (ppos, poccur)" by (cases r)
    from "1.prems" Some r have ne: "poccur \<noteq> []"
      by (auto simp: deficit_loop.simps[of env abpairs mol] split: if_splits)
    from "1.prems" Some r ne obtain mol1 where
      io: "ionizeSite env mol (last poccur) = Inr mol1" and
      rec: "deficit_loop env abpairs mol1 (charge_diff - 1) = Inr (mol', d')"
      by (auto simp: deficit_loop.simps[of env abpairs mol] split: sum.splits)
    note c = ionizeSite_Inr[OF io]
    show ?thesis
    proof (cases "0 < charge_diff - 1")
      case True
      from "1.IH"[OF "1.prems"(2) Some r[symmetric] ne io rec True] c show ?thesis by simp
    next
      case False
      with rec have "mol' = mol1" "d' = charge_diff - 1"
        by (simp_all add: deficit_loop.simps[of env abpairs mol1])
      with False "1.prems"(2) c show ?thesis by simp
    qed
  qed
qed

lemma example_deficit:
  "deficit_phase atom_env [hydroxy_pair, thiol_pair] sodium_methanol 1 1 = Inr (sodium_methoxide, 0)"
  by code_simp

text \<open>
  Claim C6. In \<open>reionizeInPlace\<close> the deficit-compensation phase is called with the
  total formal charge of the molecule after the corrections and with
  \<open>charge_diff\<close>, that charge minus the total charge before the corrections (after
  the refresh of the valence state, if one was due). The phase does nothing
  unless the charge after the corrections is nonzero and \<open>charge_diff\<close> is
  strictly positive; otherwise the balancing loop starts from the corrected
  molecule. A step of the phase finds the strongest protonated site, decrements
  the formal charge of the site atom by one, decrements its explicit hydrogen
  count by one if it has explicit hydrogens, touches no other atom, and goes on
  with \<open>charge_diff - 1\<close>. The phase ends when the scan finds no site or
  \<open>charge_diff\<close> has reached zero; the total charge has then gone down by the
  number of steps.
\<close>

theorem deficit_phase_spec:
  "(current_charge = 0 \<or> charge_diff \<le> 0 \<longrightarrow>
      deficit_phase env abpairs mol current_charge charge_diff = Inr (mol, charge_diff)) \<and>
   (current_charge \<noteq> 0 \<and> 0 < charge_diff \<and> strongestProtonated env mol abpairs = None \<longrightarrow>
      deficit_phase env abpairs mol current_charge charge_diff = Inr (mol, charge_diff)) \<and>
   (current_charge \<noteq> 0 \<and> 0 < charge_diff \<and>
    strongestProtonated env mol abpairs = Some (ppos, poccur) \<and>
    poccur \<noteq> [] \<and> last poccur < getNumAtoms mol \<longrightarrow>
      (\<exists>mol1. deficit_phase env abpairs mol current_charge charge_diff =
                 deficit_loop env abpairs mol1 (charge_diff - 1) \<and>
         formalCharge (atoms mol1 ! last poccur) = formalCharge (atoms mol ! last poccur) - 1 \<and>
         numExplicitHs (atoms mol1 ! last poccur) =
           (if 0 < numExplicitHs (atoms mol ! last poccur)
            then numExplicitHs (atoms mol ! last poccur) - 1
            else numExplicitHs (atoms mol ! last poccur)) \<and>
         (\<forall>j. j \<noteq> last poccur \<longrightarrow> atoms mol1 ! j = atoms mol ! j))) \<and>
   (current_charge \<noteq> 0 \<and> 0 < charge_diff \<and>
    deficit_phase env abpairs mol current_charge charge_diff = Inr (mol', d') \<longrightarrow>
      0 \<le> d' \<and> (d' = 0 \<or> strongestProtonated env mol' abpairs = None) \<and>
      getFormalCharge mol' = getFormalCharge mol - (charge_diff - d')) \<and>
   (applyChargeCorrections env ccs
      (if needsUpdatePropertyCache m then updatePropertyCache env m else m) = Inr corrected \<longrightarrow>
      reionizeInPlace env abpairs ccs m =
        (case deficit_phase env abpairs corrected (getFormalCharge corrected)
                (getFormalCharge corrected -
                 getFormalCharge (if needsUpdatePropertyCache m then updatePropertyCache env m else m)) of
           Inl e \<Rightarrow> Inl e
         | Inr (mol2, d) \<Rightarrow> fst (balancing_loop env abpairs mol2 {} 0))) \<and>
   (applyChargeCorrections env ccs
      (if needsUpdatePropertyCache m then updatePropertyCache env m else m) = Inr corrected \<and>
    (getFormalCharge corrected = 0 \<or>
     getFormalCharge corrected \<le>
       getFormalCharge (if needsUpdatePropertyCache m then updatePropertyCache env m else m)) \<longrightarrow>
      reionizeInPlace env abpairs ccs m = fst (balancing_loop env abpairs corrected {} 0))"
proof (intro conjI impI)
  assume "current_charge = 0 \<or> charge_diff \<le> 0"
  then show "deficit_phase env abpairs mol current_charge charge_diff = Inr (mol, charge_diff)"
    by (auto simp: deficit_phase_def deficit_loop.simps[of env abpairs mol])
next
  assume "current_charge \<noteq> 0 \<and> 0 < charge_diff \<and> strongestProtonated env mol abpairs = None"
  then show "deficit_phase env abpairs mol current_charge charge_diff = Inr (mol, charge_diff)"
    by (simp add: deficit_phase_def deficit_loop.simps[of env abpairs mol])
next
  assume a: "current_charge \<noteq> 0 \<and> 0 < charge_diff \<and>
    strongestProtonated env mol abpairs = Some (ppos, poccur) \<and>
    poccur \<noteq> [] \<and> last poccur < getNumAtoms mol"
  then have "last poccur < getNumAtoms mol" by simp
  from ionizeSite_effect[OF this, of env] obtain mol1 where
    m: "ionizeSite env mol (last poccur) = Inr mol1"
       "formalCharge (atoms mol1 ! last poccur) = formalCharge (atoms mol ! last poccur) - 1"
       "numExplicitHs (atoms mol1 ! last poccur) =
           (if 0 < numExplicitHs (atoms mol ! last poccur)
            then numExplicitHs (atoms mol ! last poccur) - 1
            else numExplicitHs (atoms mol ! last poccur))"
       "\<forall>j. j \<noteq> last poccur \<longrightarrow> atoms mol1 ! j = atoms mol ! j"
    by blast
  have "deficit_phase env abpairs mol current_charge charge_diff =
          deficit_loop env abpairs mol1 (charge_diff - 1)"
    using a m(1) by (simp add: deficit_phase_def deficit_loop.simps[of env abpairs mol])
  with m(2-4)
  show "\<exists>mol1. deficit_phase env abpairs mol current_charge charge_diff =
                 deficit_loop env abpairs mol1 (charge_diff - 1) \<and>
         formalCharge (atoms mol1 ! last poccur) = formalCharge (atoms mol ! last poccur) - 1 \<and>
         numExplicitHs (atoms mol1 ! last poccur) =
           (if 0 < numExplicitHs (atoms mol ! last poccur)
            then numExplicitHs (atoms mol ! last poccur) - 1
            else numExplicitHs (atoms mol ! last poccur)) \<and>
         (\<forall>j. j \<noteq> last poccur \<longrightarrow> atoms mol1 ! j = atoms mol ! j)"
    by blast
next
  assume a: "current_charge \<noteq> 0 \<and> 0 < charge_diff \<and>
    deficit_phase env abpairs mol current_charge charge_diff = Inr (mol', d')"
  then have "deficit_loop env abpairs mol charge_diff = Inr (mol', d')" "0 < charge_diff"
    by (auto simp: deficit_phase_def)
  from deficit_loop_result[OF this]
  show "0 \<le> d'" "d' = 0 \<or> strongestProtonated env mol' abpairs = None"
    "getFormalCharge mol' = getFormalCharge mol - (charge_diff - d')"
    by simp_all
next
  assume "applyChargeCorrections env ccs
      (if needsUpdatePropertyCache m then updatePropertyCache env m else m) = Inr corrected"
  then show "reionizeInPlace env abpairs ccs m =
        (case deficit_phase env abpairs corrected (getFormalCharge corrected)
                (getFormalCharge corrected -
                 getFormalCharge (if needsUpdatePropertyCache m then updatePropertyCache env m else m)) of
           Inl e \<Rightarrow> Inl e
         | Inr (mol2, d) \<Rightarrow> fst (balancing_loop env abpairs mol2 {} 0))"
    by (simp add: reionizeInPlace_def Let_def)
next
  assume a: "applyChargeCorrections env ccs
      (if needsUpdatePropertyCache m then updatePropertyCache env m else m) = Inr corrected \<and>
    (getFormalCharge corrected = 0 \<or>
     getFormalCharge corrected \<le>
       getFormalCharge (if needsUpdatePropertyCache m then updatePropertyCache env m else m))"
  then have "deficit_phase env abpairs corrected (getFormalCharge corrected)
                (getFormalCharge corrected -
                 getFormalCharge (if needsUpdatePropertyCache m then updatePropertyCache env m else m)) =
             Inr (corrected, getFormalCharge corrected -
                 getFormalCharge (if needsUpdatePropertyCache m then updatePropertyCache env m else m))"
    by (auto simp: deficit_phase_def deficit_loop.simps[of env abpairs corrected])
  with a show "reionizeInPlace env abpairs ccs m = fst (balancing_loop env abpairs corrected {} 0)"
    by (simp add: reionizeInPlace_def Let_def)
qed

theorem deficit_phase_spec_witness:
  "deficit_phase atom_env [hydroxy_pair, thiol_pair] sodium_methanol 0 1 = Inr (sodium_methanol, 1) \<and>
   deficit_phase atom_env [hydroxy_pair, thiol_pair] sodium_methoxide 1 1 = Inr (sodium_methoxide, 1) \<and>
   strongestProtonated atom_env sodium_methanol [hydroxy_pair, thiol_pair] = Some (0, [1]) \<and>
   (\<exists>mol1. deficit_phase atom_env [hydroxy_pair, thiol_pair] sodium_methanol 1 1 =
             deficit_loop atom_env [hydroxy_pair, thiol_pair] mol1 0 \<and>
           formalCharge (atoms mol1 ! 1) = - 1 \<and> numExplicitHs (atoms mol1 ! 1) = 0 \<and>
           atoms mol1 ! 0 = atoms sodium_methanol ! 0) \<and>
   deficit_phase atom_env [hydroxy_pair, thiol_pair] sodium_methanol 1 1 = Inr (sodium_methoxide, 0) \<and>
   getFormalCharge sodium_methoxide = getFormalCharge sodium_methanol - 1 \<and>
   applyChargeCorrections atom_env [sodium_correction] sodium_atom_methanol = Inr sodium_methanol \<and>
   getFormalCharge sodium_atom_methanol = 0 \<and> getFormalCharge sodium_methanol = 1 \<and>
   reionizeInPlace atom_env [hydroxy_pair, thiol_pair] [sodium_correction] sodium_atom_methanol =
     Inr sodium_methoxide \<and>
   applyChargeCorrections atom_env [] hydroxy_thiolate = Inr hydroxy_thiolate \<and>
   getFormalCharge hydroxy_thiolate = - 1 \<and>
   reionizeInPlace atom_env [hydroxy_pair, thiol_pair] [] hydroxy_thiolate = Inr thiol_alkoxide"
proof -
  note t1 = deficit_phase_spec[where env = atom_env and abpairs = "[hydroxy_pair, thiol_pair]"
      and mol = sodium_methanol and current_charge = 0 and charge_diff = 1]
  note t2 = deficit_phase_spec[where env = atom_env and abpairs = "[hydroxy_pair, thiol_pair]"
      and mol = sodium_methoxide and current_charge = 1 and charge_diff = 1]
  note t3 = deficit_phase_spec[where env = atom_env and abpairs = "[hydroxy_pair, thiol_pair]"
      and mol = sodium_methanol and current_charge = 1 and charge_diff = 1
      and ppos = 0 and poccur = "[1]" and mol' = sodium_methoxide and d' = 0]
  note t5 = deficit_phase_spec[where env = atom_env and abpairs = "[hydroxy_pair, thiol_pair]"
      and ccs = "[sodium_correction]" and m = sodium_atom_methanol and corrected = sodium_methanol]
  note t6 = deficit_phase_spec[where env = atom_env and abpairs = "[hydroxy_pair, thiol_pair]"
      and ccs = "[]" and m = hydroxy_thiolate and corrected = hydroxy_thiolate]
  have sp2: "strongestProtonated atom_env sodium_methoxide [hydroxy_pair, thiol_pair] = None"
    by code_simp
  have sp3: "strongestProtonated atom_env sodium_methanol [hydroxy_pair, thiol_pair] = Some (0, [1])"
    by code_simp
  have n3: "last [1::nat] < getNumAtoms sodium_methanol"
    by (simp add: getNumAtoms_def sodium_methanol_def)
  from t1[THEN conjunct1]
  have r1: "deficit_phase atom_env [hydroxy_pair, thiol_pair] sodium_methanol 0 1 = Inr (sodium_methanol, 1)"
    by simp
  from t2[THEN conjunct2, THEN conjunct1] sp2
  have r2: "deficit_phase atom_env [hydroxy_pair, thiol_pair] sodium_methoxide 1 1 = Inr (sodium_methoxide, 1)"
    by simp
  from t3[THEN conjunct2, THEN conjunct2, THEN conjunct1] sp3 n3
  obtain mol1 where
    m: "deficit_phase atom_env [hydroxy_pair, thiol_pair] sodium_methanol 1 1 =
          deficit_loop atom_env [hydroxy_pair, thiol_pair] mol1 (1 - 1)"
       "formalCharge (atoms mol1 ! last [1]) = formalCharge (atoms sodium_methanol ! last [1]) - 1"
       "numExplicitHs (atoms mol1 ! last [1]) =
           (if 0 < numExplicitHs (atoms sodium_methanol ! last [1])
            then numExplicitHs (atoms sodium_methanol ! last [1]) - 1
            else numExplicitHs (atoms sodium_methanol ! last [1]))"
       "\<forall>j. j \<noteq> last [1] \<longrightarrow> atoms mol1 ! j = atoms sodium_methanol ! j"
    by auto
  have r3: "\<exists>mol1. deficit_phase atom_env [hydroxy_pair, thiol_pair] sodium_methanol 1 1 =
             deficit_loop atom_env [hydroxy_pair, thiol_pair] mol1 0 \<and>
           formalCharge (atoms mol1 ! 1) = - 1 \<and> numExplicitHs (atoms mol1 ! 1) = 0 \<and>
           atoms mol1 ! 0 = atoms sodium_methanol ! 0"
    using m by (intro exI[of _ mol1]) (simp add: sodium_methanol_def bracket_atom_def)
  from t3[THEN conjunct2, THEN conjunct2, THEN conjunct2, THEN conjunct1] example_deficit
  have r4: "getFormalCharge sodium_methoxide = getFormalCharge sodium_methanol - 1"
    by simp
  have nr: "(if needsUpdatePropertyCache sodium_atom_methanol
             then updatePropertyCache atom_env sodium_atom_methanol else sodium_atom_methanol) =
            sodium_atom_methanol"
    by (simp add: needsUpdatePropertyCache_def atomNeedsUpdatePropertyCache_def
        sodium_atom_methanol_def bracket_atom_def)
  have cc: "applyChargeCorrections atom_env [sodium_correction] sodium_atom_methanol = Inr sodium_methanol"
    by code_simp
  have c0: "getFormalCharge sodium_atom_methanol = 0"
    by (simp add: getFormalCharge_def sodium_atom_methanol_def bracket_atom_def)
  have c1: "getFormalCharge sodium_methanol = 1"
    by (simp add: getFormalCharge_def sodium_methanol_def bracket_atom_def)
  have bl: "balancing_loop atom_env [hydroxy_pair, thiol_pair] sodium_methoxide {} 0 =
            (Inr sodium_methoxide, {}, 0)"
    by code_simp
  from t5[THEN conjunct2, THEN conjunct2, THEN conjunct2, THEN conjunct2, THEN conjunct1,
      unfolded nr, rule_format, OF cc]
  have r5: "reionizeInPlace atom_env [hydroxy_pair, thiol_pair] [sodium_correction] sodium_atom_methanol =
     Inr sodium_methoxide"
    by (simp add: c0 c1 example_deficit bl)
  have nr6: "(if needsUpdatePropertyCache hydroxy_thiolate
              then updatePropertyCache atom_env hydroxy_thiolate else hydroxy_thiolate) =
             hydroxy_thiolate"
    by (simp add: needsUpdatePropertyCache_def atomNeedsUpdatePropertyCache_def
        hydroxy_thiolate_def bracket_atom_def)
  have cc6: "applyChargeCorrections atom_env [] hydroxy_thiolate = Inr hydroxy_thiolate"
    by (simp add: applyChargeCorrections_def)
  have c6: "getFormalCharge hydroxy_thiolate = - 1"
    by (simp add: getFormalCharge_def hydroxy_thiolate_def bracket_atom_def)
  from t6[THEN conjunct2, THEN conjunct2, THEN conjunct2, THEN conjunct2, THEN conjunct2,
      unfolded nr6] cc6
  have r6: "reionizeInPlace atom_env [hydroxy_pair, thiol_pair] [] hydroxy_thiolate = Inr thiol_alkoxide"
    by (simp add: example_transfer_loop)
  from r1 r2 sp3 r3 example_deficit r4 cc c0 c1 r5 cc6 c6 r6 show ?thesis
    by (intro conjI)
qed

section \<open>Properties of the uncharger\<close>

subsection \<open>The surplus counter\<close>

lemma neutralize_surplus_no_stop:
  assumes "\<forall>k. 1 \<le> k \<and> k \<le> length negs \<longrightarrow> s \<noteq> word_of_nat k"
  shows "neutralize_surplus env mol s negs = neutralize_every env mol negs"
  using assms
proof (induction negs arbitrary: mol s)
  case Nil
  then show ?case by simp
next
  case (Cons pair rest)
  show ?case
  proof (cases "getAtomWithIdx mol (snd pair)")
    case (Inl e)
    then show ?thesis by simp
  next
    case (Inr a)
    obtain ok mol' where r: "neutralizeNegIfPossible env mol (snd pair) = (ok, mol')"
      by (cases "neutralizeNegIfPossible env mol (snd pair)")
    show ?thesis
    proof (cases ok)
      case True
      have "1 \<le> (1::nat) \<and> 1 \<le> length (pair # rest)" by simp
      with Cons.prems have "s \<noteq> word_of_nat 1" by blast
      then have s1: "s \<noteq> 1" by simp
      have "\<forall>k. 1 \<le> k \<and> k \<le> length rest \<longrightarrow> s - 1 \<noteq> word_of_nat k"
      proof (intro allI impI)
        fix k assume k: "1 \<le> k \<and> k \<le> length rest"
        then have "1 \<le> Suc k \<and> Suc k \<le> length (pair # rest)" by simp
        with Cons.prems have ne: "s \<noteq> word_of_nat (Suc k)" by blast
        show "s - 1 \<noteq> word_of_nat k"
        proof
          assume "s - 1 = word_of_nat k"
          then have "s = word_of_nat k + 1" by (simp only: diff_eq_eq)
          then have "s = word_of_nat (Suc k)" by simp
          with ne show False by contradiction
        qed
      qed
      from Cons.IH[OF this] Inr r True s1 show ?thesis by simp
    next
      case False
      have "\<forall>k. 1 \<le> k \<and> k \<le> length rest \<longrightarrow> s \<noteq> word_of_nat k"
        using Cons.prems by simp
      from Cons.IH[OF this] Inr r False show ?thesis by simp
    qed
  qed
qed

lemma surplus_never_zero:
  fixes q :: "32 word"
  assumes "n < unat q" and "k \<le> n"
  shows "word_of_nat n - q \<noteq> word_of_nat k"
proof
  assume "word_of_nat n - q = (word_of_nat k :: 32 word)"
  then have "q = word_of_nat n - word_of_nat k" by (simp add: algebra_simps)
  also have "\<dots> = word_of_nat (n - k)" using assms(2) by (simp add: of_nat_diff)
  finally have "unat q = (n - k) mod 2 ^ 32" by (simp add: unat_of_nat)
  then have "unat q \<le> n - k" by (metis mod_less_eq_dividend)
  with assms show False by simp
qed

lemma surplus_negative:
  fixes q :: "32 word"
  assumes "n < unat q" and "unat q \<le> 2 ^ 31"
  shows "sint (word_of_nat n - q) < 0"
proof -
  have "unat q \<le> 2147483648" using assms(2) by simp
  then have "int (unat q) \<le> 2147483648" by linarith
  then have hi: "uint q \<le> 2147483648" by simp
  have "int n < int (unat q)" using assms(1) by linarith
  then have lo: "int n < uint q" by simp
  have e: "(word_of_nat n - q :: 32 word) = word_of_int (int n - uint q)"
    by simp
  have "sint (word_of_int (int n - uint q) :: 32 word) =
          signed_take_bit (LENGTH(32) - 1) (int n - uint q)"
    by (rule sint_sbintrunc')
  also have "\<dots> = int n - uint q"
  proof (rule signed_take_bit_int_eq_self)
    show "- (2 ^ (LENGTH(32) - 1)) \<le> int n - uint q"
      using hi by simp
    show "int n - uint q < 2 ^ (LENGTH(32) - 1)"
      using lo by simp
  qed
  finally have "sint (word_of_nat n - q) = int n - uint q"
    unfolding e .
  with lo show ?thesis by simp
qed

lemma surplus_zero:
  fixes q :: "32 word"
  assumes "unat q = n"
  shows "word_of_nat n - q = 0"
  using assms by auto

text \<open>
  Claim C10. With \<open>df_force\<close> off: if \<open>q_matched\<close> equals the length of the list of
  negative sites, the pass that neutralizes negative sites changes nothing; if
  \<open>q_matched\<close> is greater than that length, the pass hands every atom of the list
  to \<open>neutralizeNegIfPossible\<close>, as the loop without counter does, because the
  counter never becomes zero. In that case the counter, read as a signed integer,
  starts negative (for a \<open>q_matched\<close> of at most \<open>2^31\<close>).
\<close>

theorem negative_surplus_neutralizes_all:
  "\<not> df_force u \<longrightarrow>
     (unat (q_matched acc) = length (neg_atoms acc) \<longrightarrow>
        neutralize_negatives env mol (initial_neg_surplus u acc) (neg_atoms acc) = Inr mol) \<and>
     (length (neg_atoms acc) < unat (q_matched acc) \<longrightarrow>
        neutralize_negatives env mol (initial_neg_surplus u acc) (neg_atoms acc) =
          neutralize_every env mol (neg_atoms acc) \<and>
        (unat (q_matched acc) \<le> 2 ^ 31 \<longrightarrow> sint (initial_neg_surplus u acc) < 0))"
proof (intro impI conjI)
  assume f: "\<not> df_force u" and "unat (q_matched acc) = length (neg_atoms acc)"
  from surplus_zero[OF this(2)] f
  show "neutralize_negatives env mol (initial_neg_surplus u acc) (neg_atoms acc) = Inr mol"
    by (simp add: neutralize_negatives_def initial_neg_surplus_def)
next
  assume f: "\<not> df_force u" and lt: "length (neg_atoms acc) < unat (q_matched acc)"
  let ?s = "word_of_nat (length (neg_atoms acc)) - q_matched acc"
  have ne: "?s \<noteq> word_of_nat k" if "k \<le> length (neg_atoms acc)" for k
    using surplus_never_zero[OF lt that] .
  from ne[of 0] have s0: "?s \<noteq> 0" by simp
  have "\<forall>k. 1 \<le> k \<and> k \<le> length (neg_atoms acc) \<longrightarrow> ?s \<noteq> word_of_nat k"
    using ne by blast
  from neutralize_surplus_no_stop[OF this] s0 f
  show "neutralize_negatives env mol (initial_neg_surplus u acc) (neg_atoms acc) =
          neutralize_every env mol (neg_atoms acc)"
    by (simp add: neutralize_negatives_def initial_neg_surplus_def)
next
  assume f: "\<not> df_force u" and lt: "length (neg_atoms acc) < unat (q_matched acc)"
    and le: "unat (q_matched acc) \<le> 2 ^ 31"
  from surplus_negative[OF lt le] f
  show "sint (initial_neg_surplus u acc) < 0"
    by (simp add: initial_neg_surplus_def)
qed

lemma example_magnesium_accounting:
  "uncharge_accounting (smarts_env index_ranks) (Uncharger_ctor True False) magnesium_methoxide =
     Inr \<lparr>p_matches = [], q_matched = 2, needsNeutralization = True,
          atomRanks = [0, 1, 2], n_atoms = [(1, 1)], a_atoms = [], neg_atoms = [(1, 1)]\<rparr>"
  by code_simp

lemma example_sodium_accounting:
  "uncharge_accounting (smarts_env index_ranks) (Uncharger_ctor True False) sodium_methoxide =
     Inr \<lparr>p_matches = [], q_matched = 1, needsNeutralization = True,
          atomRanks = [0, 1, 2], n_atoms = [(1, 1)], a_atoms = [], neg_atoms = [(1, 1)]\<rparr>"
  by code_simp

theorem negative_surplus_neutralizes_all_witness:
  "neutralize_negatives (smarts_env index_ranks) sodium_methoxide
     (initial_neg_surplus (Uncharger_ctor True False)
        \<lparr>p_matches = [], q_matched = 1, needsNeutralization = True,
         atomRanks = [0, 1, 2], n_atoms = [(1, 1)], a_atoms = [], neg_atoms = [(1, 1)]\<rparr>)
     [(1, 1)] = Inr sodium_methoxide \<and>
   neutralize_negatives (smarts_env index_ranks) magnesium_methoxide
     (initial_neg_surplus (Uncharger_ctor True False)
        \<lparr>p_matches = [], q_matched = 2, needsNeutralization = True,
         atomRanks = [0, 1, 2], n_atoms = [(1, 1)], a_atoms = [], neg_atoms = [(1, 1)]\<rparr>)
     [(1, 1)] = Inr magnesium_methanol \<and>
   sint (initial_neg_surplus (Uncharger_ctor True False)
        \<lparr>p_matches = [], q_matched = 2, needsNeutralization = True,
         atomRanks = [0, 1, 2], n_atoms = [(1, 1)], a_atoms = [], neg_atoms = [(1, 1)]\<rparr>) < 0"
proof -
  let ?na = "\<lparr>p_matches = [], q_matched = 1, needsNeutralization = True,
         atomRanks = [0, 1, 2], n_atoms = [(1, 1)], a_atoms = [], neg_atoms = [(1, 1)]\<rparr>"
  let ?mg = "\<lparr>p_matches = [], q_matched = 2, needsNeutralization = True,
         atomRanks = [0, 1, 2], n_atoms = [(1, 1)], a_atoms = [], neg_atoms = [(1, 1)]\<rparr>"
  note t1 = negative_surplus_neutralizes_all[where u = "Uncharger_ctor True False" and acc = ?na
      and env = "smarts_env index_ranks" and mol = sodium_methoxide]
  note t2 = negative_surplus_neutralizes_all[where u = "Uncharger_ctor True False" and acc = ?mg
      and env = "smarts_env index_ranks" and mol = magnesium_methoxide]
  have f: "\<not> df_force (Uncharger_ctor True False)"
    by (simp add: Uncharger_ctor_def)
  have ev: "neutralize_every (smarts_env index_ranks) magnesium_methoxide [(1, 1)] =
              Inr magnesium_methanol"
    by code_simp
  from t1 f have "neutralize_negatives (smarts_env index_ranks) sodium_methoxide
     (initial_neg_surplus (Uncharger_ctor True False) ?na) [(1, 1)] = Inr sodium_methoxide"
    by simp
  moreover from t2 f have "neutralize_negatives (smarts_env index_ranks) magnesium_methoxide
     (initial_neg_surplus (Uncharger_ctor True False) ?mg) [(1, 1)] =
       neutralize_every (smarts_env index_ranks) magnesium_methoxide [(1, 1)] \<and>
     sint (initial_neg_surplus (Uncharger_ctor True False) ?mg) < 0"
    by simp
  ultimately show ?thesis using ev by simp
qed

subsection \<open>Ranks and the order of the match lists\<close>

lemma getRankIdxPair_Inr:
  assumes "getRankIdxPair ranks mv = Inr pair"
  shows "mv \<noteq> [] \<and> snd (hd mv) < length ranks \<and> pair = rank_idx ranks mv"
  using assms
  by (auto simp: getRankIdxPair_def rank_idx_def Let_def split: list.splits if_splits)

lemma transform_fold_Inr:
  assumes "efold (\<lambda>acc mv. case getRankIdxPair ranks mv of
                        Inl e \<Rightarrow> Inl e
                      | Inr pair \<Rightarrow> Inr (acc @ [pair])) acc0 matches = Inr xs"
  shows "xs = acc0 @ map (rank_idx ranks) matches \<and>
         (\<forall>mv\<in>set matches. mv \<noteq> [] \<and> snd (hd mv) < length ranks)"
  using assms
proof (induction matches arbitrary: acc0)
  case Nil
  then show ?case by simp
next
  case (Cons mv rest)
  from Cons.prems obtain pair where
    p: "getRankIdxPair ranks mv = Inr pair" and
    r: "efold (\<lambda>acc mv. case getRankIdxPair ranks mv of
                        Inl e \<Rightarrow> Inl e
                      | Inr pair \<Rightarrow> Inr (acc @ [pair])) (acc0 @ [pair]) rest = Inr xs"
    by (auto split: sum.splits)
  from Cons.IH[OF r] getRankIdxPair_Inr[OF p] show ?case by simp
qed

lemma transform_matches_Inr:
  assumes "transform_matches ranks matches = Inr xs"
  shows "xs = map (rank_idx ranks) matches \<and>
         (\<forall>mv\<in>set matches. mv \<noteq> [] \<and> snd (hd mv) < length ranks)"
  using transform_fold_Inr[OF assms[unfolded transform_matches_def]] by simp

lemma rank_and_sort_Inr:
  assumes "rank_and_sort c ranks matches = Inr xs"
  shows "xs = (if c then sort (map (rank_idx ranks) matches) else map (rank_idx ranks) matches) \<and>
         (\<forall>mv\<in>set matches. mv \<noteq> [] \<and> snd (hd mv) < length ranks)"
proof -
  from assms obtain ys where t: "transform_matches ranks matches = Inr ys"
    and xs: "xs = (if c then sort ys else ys)"
    by (auto simp: rank_and_sort_def split: sum.splits)
  from transform_matches_Inr[OF t] xs show ?thesis by simp
qed

lemma uncharge_accounting_Inr:
  assumes "uncharge_accounting env u mol = Inr acc"
  shows "p_matches acc = SubstructMatch env mol (pos_h u)"
    and "efold (q_matched_step mol) 0 (SubstructMatch env mol (pos_noh u)) = Inr (q_matched acc)"
    and "needsNeutralization acc =
           (0 < q_matched acc \<and>
            (SubstructMatch env mol (neg u) \<noteq> [] \<or> SubstructMatch env mol (neg_acid u) \<noteq> []))"
    and "atomRanks acc =
           (if df_canonicalOrdering u \<and> needsNeutralization acc then rankMolAtoms env mol
            else [0..<getNumAtoms mol])"
    and "rank_and_sort (df_canonicalOrdering u) (atomRanks acc) (SubstructMatch env mol (neg u)) =
           Inr (n_atoms acc)"
    and "rank_and_sort (df_canonicalOrdering u) (atomRanks acc) (SubstructMatch env mol (neg_acid u)) =
           Inr (a_atoms acc)"
    and "build_neg_atoms mol (n_atoms acc) (a_atoms acc) = Inr (neg_atoms acc)"
  using assms
  by (auto simp: uncharge_accounting_def Let_def split: sum.splits)

lemma rank_idx_upt:
  assumes "snd (hd mv) < n"
  shows "rank_idx [0..<n] mv = (snd (hd mv), snd (hd mv))"
  using assms by (simp add: rank_idx_def)

lemma rank_and_sort_upt:
  assumes "rank_and_sort c [0..<n] matches = Inr xs"
  shows "xs = (if c then sort (map (\<lambda>mv. (snd (hd mv), snd (hd mv))) matches)
               else map (\<lambda>mv. (snd (hd mv), snd (hd mv))) matches)"
proof -
  from rank_and_sort_Inr[OF assms] have
    xs: "xs = (if c then sort (map (rank_idx [0..<n]) matches) else map (rank_idx [0..<n]) matches)"
    and r: "\<forall>mv\<in>set matches. snd (hd mv) < n"
    by simp_all
  have "map (rank_idx [0..<n]) matches = map (\<lambda>mv. (snd (hd mv), snd (hd mv))) matches"
    by (rule map_cong) (use r in \<open>simp_all add: rank_idx_upt\<close>)
  with xs show ?thesis by (simp only:)
qed

text \<open>
  Claim C7, as the code has it. The ranker is asked only if \<open>df_canonicalOrdering\<close> is
  set and a neutralization is needed, that is \<open>q_matched\<close> is positive and \<open>neg\<close> or
  \<open>neg_acid\<close> has a match; then both match lists are sorted by (canonical rank,
  atom index) ascending. If the flag is set and no neutralization is needed, the
  key of an atom is its index and both lists are sorted by atom index. If the
  flag is not set, the key of an atom is its index and both lists keep the order
  of the matches.
\<close>

theorem match_lists_ordering:
  assumes "uncharge_accounting env u mol = Inr acc"
    and "n_matches = SubstructMatch env mol (neg u)"
    and "a_matches = SubstructMatch env mol (neg_acid u)"
  shows "needsNeutralization acc = (0 < q_matched acc \<and> (n_matches \<noteq> [] \<or> a_matches \<noteq> [])) \<and>
         (df_canonicalOrdering u \<and> needsNeutralization acc \<longrightarrow>
            atomRanks acc = rankMolAtoms env mol \<and>
            n_atoms acc = sort (map (rank_idx (rankMolAtoms env mol)) n_matches) \<and>
            a_atoms acc = sort (map (rank_idx (rankMolAtoms env mol)) a_matches)) \<and>
         (df_canonicalOrdering u \<and> \<not> needsNeutralization acc \<longrightarrow>
            n_atoms acc = sort (map (\<lambda>mv. (snd (hd mv), snd (hd mv))) n_matches) \<and>
            a_atoms acc = sort (map (\<lambda>mv. (snd (hd mv), snd (hd mv))) a_matches)) \<and>
         (\<not> df_canonicalOrdering u \<longrightarrow>
            n_atoms acc = map (\<lambda>mv. (snd (hd mv), snd (hd mv))) n_matches \<and>
            a_atoms acc = map (\<lambda>mv. (snd (hd mv), snd (hd mv))) a_matches)"
proof -
  note a = uncharge_accounting_Inr[OF assms(1), folded assms(2,3)]
  note needs = a(3) and ranks = a(4) and n = a(5) and as = a(6)
  have canonical: "atomRanks acc = rankMolAtoms env mol \<and>
            n_atoms acc = sort (map (rank_idx (rankMolAtoms env mol)) n_matches) \<and>
            a_atoms acc = sort (map (rank_idx (rankMolAtoms env mol)) a_matches)"
    if "df_canonicalOrdering u \<and> needsNeutralization acc"
    using that ranks rank_and_sort_Inr[OF n] rank_and_sort_Inr[OF as] by simp
  have by_index: "n_atoms acc = sort (map (\<lambda>mv. (snd (hd mv), snd (hd mv))) n_matches) \<and>
            a_atoms acc = sort (map (\<lambda>mv. (snd (hd mv), snd (hd mv))) a_matches)"
    if c: "df_canonicalOrdering u \<and> \<not> needsNeutralization acc"
  proof -
    from c ranks have r: "atomRanks acc = [0..<getNumAtoms mol]" by simp
    from rank_and_sort_upt[OF n[unfolded r]] rank_and_sort_upt[OF as[unfolded r]] c
    show ?thesis by simp
  qed
  have unsorted: "n_atoms acc = map (\<lambda>mv. (snd (hd mv), snd (hd mv))) n_matches \<and>
            a_atoms acc = map (\<lambda>mv. (snd (hd mv), snd (hd mv))) a_matches"
    if c: "\<not> df_canonicalOrdering u"
  proof -
    from c ranks have r: "atomRanks acc = [0..<getNumAtoms mol]" by simp
    from rank_and_sort_upt[OF n[unfolded r]] rank_and_sort_upt[OF as[unfolded r]] c
    show ?thesis by simp
  qed
  from needs canonical by_index unsorted show ?thesis by blast
qed

lemma example_two_anions_accounting:
  "uncharge_accounting (smarts_env reverse_ranks) (Uncharger_ctor True False) two_anions =
     Inr \<lparr>p_matches = [], q_matched = 0, needsNeutralization = False,
          atomRanks = [0, 1, 2, 3], n_atoms = [(0, 0), (2, 2)], a_atoms = [],
          neg_atoms = [(0, 0), (2, 2)]\<rparr>"
  by code_simp

lemma example_two_anions_sodium_accounting:
  "uncharge_accounting (smarts_env reverse_ranks) (Uncharger_ctor True False) two_anions_sodium =
     Inr \<lparr>p_matches = [], q_matched = 1, needsNeutralization = True,
          atomRanks = [4, 3, 2, 1, 0], n_atoms = [(2, 2), (4, 0)], a_atoms = [],
          neg_atoms = [(2, 2), (4, 0)]\<rparr>"
  by code_simp

lemma example_two_anions_sodium_unranked:
  "uncharge_accounting (smarts_env reverse_ranks) (Uncharger_ctor False False) two_anions_sodium =
     Inr \<lparr>p_matches = [], q_matched = 1, needsNeutralization = True,
          atomRanks = [0, 1, 2, 3, 4], n_atoms = [(0, 0), (2, 2)], a_atoms = [],
          neg_atoms = [(0, 0), (2, 2)]\<rparr>"
  by code_simp

theorem match_lists_ordering_witness:
  "uncharge_accounting (smarts_env reverse_ranks) (Uncharger_ctor True False) two_anions_sodium =
     Inr \<lparr>p_matches = [], q_matched = 1, needsNeutralization = True,
          atomRanks = [4, 3, 2, 1, 0], n_atoms = [(2, 2), (4, 0)], a_atoms = [],
          neg_atoms = [(2, 2), (4, 0)]\<rparr> \<and>
   [(2, 2), (4, 0)] =
     sort (map (rank_idx (rankMolAtoms (smarts_env reverse_ranks) two_anions_sodium))
               (SubstructMatch (smarts_env reverse_ranks) two_anions_sodium
                  (neg (Uncharger_ctor True False)))) \<and>
   uncharge_accounting (smarts_env reverse_ranks) (Uncharger_ctor True False) two_anions =
     Inr \<lparr>p_matches = [], q_matched = 0, needsNeutralization = False,
          atomRanks = [0, 1, 2, 3], n_atoms = [(0, 0), (2, 2)], a_atoms = [],
          neg_atoms = [(0, 0), (2, 2)]\<rparr> \<and>
   [(0, 0), (2, 2)] =
     sort (map (\<lambda>mv. (snd (hd mv), snd (hd mv)))
               (SubstructMatch (smarts_env reverse_ranks) two_anions
                  (neg (Uncharger_ctor True False)))) \<and>
   uncharge_accounting (smarts_env reverse_ranks) (Uncharger_ctor False False) two_anions_sodium =
     Inr \<lparr>p_matches = [], q_matched = 1, needsNeutralization = True,
          atomRanks = [0, 1, 2, 3, 4], n_atoms = [(0, 0), (2, 2)], a_atoms = [],
          neg_atoms = [(0, 0), (2, 2)]\<rparr> \<and>
   [(0, 0), (2, 2)] =
     map (\<lambda>mv. (snd (hd mv), snd (hd mv)))
         (SubstructMatch (smarts_env reverse_ranks) two_anions_sodium
            (neg (Uncharger_ctor False False)))"
proof -
  have c: "df_canonicalOrdering (Uncharger_ctor True False)"
    "\<not> df_canonicalOrdering (Uncharger_ctor False False)"
    by (simp_all add: Uncharger_ctor_def)
  from match_lists_ordering[OF example_two_anions_sodium_accounting refl refl] c(1)
  have r1: "[(2, 2), (4, 0)] =
     sort (map (rank_idx (rankMolAtoms (smarts_env reverse_ranks) two_anions_sodium))
               (SubstructMatch (smarts_env reverse_ranks) two_anions_sodium
                  (neg (Uncharger_ctor True False))))"
    by simp
  from match_lists_ordering[OF example_two_anions_accounting refl refl] c(1)
  have r2: "[(0, 0), (2, 2)] =
     sort (map (\<lambda>mv. (snd (hd mv), snd (hd mv)))
               (SubstructMatch (smarts_env reverse_ranks) two_anions
                  (neg (Uncharger_ctor True False))))"
    by simp
  from match_lists_ordering[OF example_two_anions_sodium_unranked refl refl] c(2)
  have r3: "[(0, 0), (2, 2)] =
     map (\<lambda>mv. (snd (hd mv), snd (hd mv)))
         (SubstructMatch (smarts_env reverse_ranks) two_anions_sodium
            (neg (Uncharger_ctor False False)))"
    by simp
  from example_two_anions_sodium_accounting r1 example_two_anions_accounting r2
    example_two_anions_sodium_unranked r3
  show ?thesis by (intro conjI)
qed

text \<open>
  Claim C7 as it is written fails where the flag is set and no quaternary cation is
  there: the ranker says that the sulfur comes first, the ranks that the code uses
  are the atom indices, and the list of negative sites starts with the oxygen.
\<close>

theorem match_lists_ordering_counterexample:
  "df_canonicalOrdering (Uncharger_ctor True False) \<and>
   rankMolAtoms (smarts_env reverse_ranks) two_anions = [3, 2, 1, 0] \<and>
   sort (map (rank_idx (rankMolAtoms (smarts_env reverse_ranks) two_anions))
             (SubstructMatch (smarts_env reverse_ranks) two_anions
                (neg (Uncharger_ctor True False)))) = [(1, 2), (3, 0)] \<and>
   uncharge_accounting (smarts_env reverse_ranks) (Uncharger_ctor True False) two_anions =
     Inr \<lparr>p_matches = [], q_matched = 0, needsNeutralization = False,
          atomRanks = [0, 1, 2, 3], n_atoms = [(0, 0), (2, 2)], a_atoms = [],
          neg_atoms = [(0, 0), (2, 2)]\<rparr>"
proof (intro conjI)
  show "df_canonicalOrdering (Uncharger_ctor True False)"
    by (simp add: Uncharger_ctor_def)
  show "rankMolAtoms (smarts_env reverse_ranks) two_anions = [3, 2, 1, 0]"
    by code_simp
  show "sort (map (rank_idx (rankMolAtoms (smarts_env reverse_ranks) two_anions))
             (SubstructMatch (smarts_env reverse_ranks) two_anions
                (neg (Uncharger_ctor True False)))) = [(1, 2), (3, 0)]"
    by code_simp
  show "uncharge_accounting (smarts_env reverse_ranks) (Uncharger_ctor True False) two_anions =
     Inr \<lparr>p_matches = [], q_matched = 0, needsNeutralization = False,
          atomRanks = [0, 1, 2, 3], n_atoms = [(0, 0), (2, 2)], a_atoms = [],
          neg_atoms = [(0, 0), (2, 2)]\<rparr>"
    by code_simp
qed

subsection \<open>The list of negative sites\<close>

lemma scan_neighbors_find:
  "scan_neighbors mol idx bits nbrs =
     (case find (\<lambda>j. formalCharge (atoms mol ! j) > 0) nbrs of
        None \<Rightarrow> bits
      | Some nb \<Rightarrow> if \<not> bits ! nb then bits[nb := True] else bits[idx := True])"
  by (induction nbrs) auto

lemma first_positive_neighbor_Some:
  assumes "first_positive_neighbor mol idx = Some nb"
  shows "nb < getNumAtoms mol \<and> 0 < formalCharge (atoms mol ! nb)"
proof -
  from assms have "nb \<in> set (getAtomNeighbors mol idx)" "0 < formalCharge (atoms mol ! nb)"
    by (auto simp: first_positive_neighbor_def find_Some_iff)
  then show ?thesis by (auto simp: getAtomNeighbors_def)
qed

lemma skipChargeSep_step_Inr:
  assumes "skipChargeSep_step mol bits pair = Inr bits1"
  shows "snd pair < getNumAtoms mol \<and>
         bits1 = (case first_positive_neighbor mol (snd pair) of
                    None \<Rightarrow> bits
                  | Some nb \<Rightarrow> if \<not> bits ! nb then bits[nb := True] else bits[snd pair := True])"
  using assms
  by (auto simp: skipChargeSep_step_def getAtomWithIdx_def scan_neighbors_find
      first_positive_neighbor_def split: if_splits)

lemma skip_fold_frame:
  assumes "efold (skipChargeSep_step mol) bits as = Inr bits'"
    and "i \<notin> snd ` set as" and "formalCharge (atoms mol ! i) \<le> 0"
  shows "bits' ! i = bits ! i"
  using assms
proof (induction as arbitrary: bits)
  case Nil
  then show ?case by simp
next
  case (Cons pair rest)
  from Cons.prems(1) obtain bits1 where
    s: "skipChargeSep_step mol bits pair = Inr bits1" and
    r: "efold (skipChargeSep_step mol) bits1 rest = Inr bits'"
    by (auto split: sum.splits)
  from Cons.prems(2) have i: "i \<noteq> snd pair" "i \<notin> snd ` set rest" by auto
  have "bits1 ! i = bits ! i"
  proof (cases "first_positive_neighbor mol (snd pair)")
    case None
    with skipChargeSep_step_Inr[OF s] show ?thesis by simp
  next
    case (Some nb)
    from first_positive_neighbor_Some[OF Some] Cons.prems(3) have "nb \<noteq> i" by auto
    with skipChargeSep_step_Inr[OF s] Some i(1) show ?thesis by simp
  qed
  with Cons.IH[OF r i(2) Cons.prems(3)] show ?case by simp
qed

lemma skip_fold_keep_first:
  assumes "efold (skipChargeSep_step mol) bits as = Inr bits'"
    and "length bits = getNumAtoms mol"
    and "\<forall>nb<getNumAtoms mol. 0 < formalCharge (atoms mol ! nb) \<longrightarrow> (bits ! nb \<longleftrightarrow> nb \<in> taken)"
    and "\<forall>i\<in>snd ` set as. \<not> bits ! i"
    and "\<forall>i\<in>snd ` set as. formalCharge (atoms mol ! i) \<le> 0"
    and "distinct (map snd as)"
  shows "filter (\<lambda>pair. \<not> bits' ! snd pair) as = keep_first mol taken as"
  using assms
proof (induction as arbitrary: bits taken)
  case Nil
  then show ?case by simp
next
  case (Cons pair rest)
  let ?idx = "snd pair"
  from Cons.prems(1) obtain bits1 where
    s: "skipChargeSep_step mol bits pair = Inr bits1" and
    r: "efold (skipChargeSep_step mol) bits1 rest = Inr bits'"
    by (auto split: sum.splits)
  note st = skipChargeSep_step_Inr[OF s]
  from st have idx: "?idx < getNumAtoms mol" by simp
  from Cons.prems(5) have neg: "formalCharge (atoms mol ! ?idx) \<le> 0" by simp
  from Cons.prems(6) have notin: "?idx \<notin> snd ` set rest" and dist: "distinct (map snd rest)"
    by auto
  from Cons.prems(4) have unset: "\<not> bits ! ?idx" by simp
  have final: "bits' ! ?idx = bits1 ! ?idx"
    by (rule skip_fold_frame[OF r notin neg])
  have restneg: "\<forall>i\<in>snd ` set rest. formalCharge (atoms mol ! i) \<le> 0"
    using Cons.prems(5) by simp
  show ?case
  proof (cases "first_positive_neighbor mol ?idx")
    case None
    with st have b1: "bits1 = bits" by simp
    have "filter (\<lambda>pair. \<not> bits' ! snd pair) rest = keep_first mol taken rest"
      using Cons.IH[OF r[unfolded b1] Cons.prems(2,3) _ restneg dist] Cons.prems(4) by simp
    with None final b1 unset show ?thesis by simp
  next
    case (Some nb)
    note nb = first_positive_neighbor_Some[OF Some]
    from nb neg have nbidx: "nb \<noteq> ?idx" by auto
    have nbrest: "nb \<notin> snd ` set rest" using nb restneg by force
    show ?thesis
    proof (cases "bits ! nb")
      case True
      with st Some have b1: "bits1 = bits[?idx := True]" by simp
      from True nb Cons.prems(3) have tk: "nb \<in> taken" by simp
      have len: "length bits1 = getNumAtoms mol" using b1 Cons.prems(2) by simp
      have inv: "\<forall>n<getNumAtoms mol. 0 < formalCharge (atoms mol ! n) \<longrightarrow> (bits1 ! n \<longleftrightarrow> n \<in> taken)"
      proof (intro allI impI)
        fix n assume n: "n < getNumAtoms mol" "0 < formalCharge (atoms mol ! n)"
        with neg have "n \<noteq> ?idx" by auto
        with b1 have "bits1 ! n = bits ! n" by simp
        with Cons.prems(3) n show "bits1 ! n \<longleftrightarrow> n \<in> taken" by simp
      qed
      have un: "\<forall>i\<in>snd ` set rest. \<not> bits1 ! i"
      proof
        fix i assume i: "i \<in> snd ` set rest"
        with notin have "i \<noteq> ?idx" by blast
        with b1 have "bits1 ! i = bits ! i" by simp
        with Cons.prems(4) i show "\<not> bits1 ! i" by auto
      qed
      have "filter (\<lambda>pair. \<not> bits' ! snd pair) rest = keep_first mol taken rest"
        by (rule Cons.IH[OF r len inv un restneg dist])
      moreover have "bits' ! ?idx" using final b1 idx Cons.prems(2) by simp
      ultimately show ?thesis using Some tk by simp
    next
      case False
      with st Some have b1: "bits1 = bits[nb := True]" by simp
      from False nb Cons.prems(3) have tk: "nb \<notin> taken" by simp
      have len: "length bits1 = getNumAtoms mol" using b1 Cons.prems(2) by simp
      have inv: "\<forall>n<getNumAtoms mol. 0 < formalCharge (atoms mol ! n) \<longrightarrow>
                   (bits1 ! n \<longleftrightarrow> n \<in> insert nb taken)"
      proof (intro allI impI)
        fix n assume n: "n < getNumAtoms mol" "0 < formalCharge (atoms mol ! n)"
        show "bits1 ! n \<longleftrightarrow> n \<in> insert nb taken"
        proof (cases "n = nb")
          case True
          with b1 n Cons.prems(2) show ?thesis by simp
        next
          case False
          with b1 have "bits1 ! n = bits ! n" by simp
          with Cons.prems(3) n False show ?thesis by simp
        qed
      qed
      have un: "\<forall>i\<in>snd ` set rest. \<not> bits1 ! i"
      proof
        fix i assume i: "i \<in> snd ` set rest"
        with nbrest have "i \<noteq> nb" by blast
        with b1 have "bits1 ! i = bits ! i" by simp
        with Cons.prems(4) i show "\<not> bits1 ! i" by auto
      qed
      have "filter (\<lambda>pair. \<not> bits' ! snd pair) rest = keep_first mol (insert nb taken) rest"
        by (rule Cons.IH[OF r len inv un restneg dist])
      moreover have "\<not> bits' ! ?idx" using final b1 nbidx unset by simp
      ultimately show ?thesis using Some tk by simp
    qed
  qed
qed

lemma bit_reset_fold:
  assumes "efold bit_reset bits idxs = Inr bits'"
  shows "length bits' = length bits \<and> (\<forall>i\<in>set idxs. i < length bits) \<and>
         (\<forall>i<length bits. bits' ! i \<longleftrightarrow> bits ! i \<and> i \<notin> set idxs)"
  using assms
proof (induction idxs arbitrary: bits)
  case Nil
  then show ?case by simp
next
  case (Cons x xs)
  from Cons.prems obtain b1 where s: "bit_reset bits x = Inr b1" and
    r: "efold bit_reset b1 xs = Inr bits'"
    by (auto split: sum.splits)
  from s have x: "x < length bits" and b1: "b1 = bits[x := False]"
    by (auto simp: bit_reset_def split: if_splits)
  from Cons.IH[OF r] x show ?case
    unfolding b1 by (auto simp: nth_list_update)
qed

lemma keep_nonAcid_fold:
  assumes "efold (keep_nonAcid nonAcids) acc ns = Inr out"
  shows "out = acc @ filter (\<lambda>pair. nonAcids ! snd pair) ns \<and>
         (\<forall>pair\<in>set ns. snd pair < length nonAcids)"
  using assms
proof (induction ns arbitrary: acc)
  case Nil
  then show ?case by simp
next
  case (Cons p ps)
  from Cons.prems obtain acc1 where s: "keep_nonAcid nonAcids acc p = Inr acc1" and
    r: "efold (keep_nonAcid nonAcids) acc1 ps = Inr out"
    by (auto split: sum.splits)
  from s have p: "snd p < length nonAcids" and
    acc1: "acc1 = (if \<not> nonAcids ! snd p then acc else acc @ [p])"
    by (auto simp: keep_nonAcid_def split: if_splits)
  from Cons.IH[OF r] p show ?case
    unfolding acc1 by auto
qed

lemma build_neg_atoms_Inr:
  assumes "build_neg_atoms mol ns as = Inr negs"
    and "distinct (map snd as)"
    and "\<forall>pair\<in>set as. formalCharge (atoms mol ! snd pair) \<le> 0"
  shows "negs = filter (\<lambda>pair. snd pair \<notin> snd ` set as) ns @ keep_first mol {} as"
    and "\<forall>pair\<in>set as. snd pair < getNumAtoms mol"
    and "\<forall>pair\<in>set ns. snd pair < getNumAtoms mol"
proof -
  from assms(1) obtain nonAcids neg0 skip where
    b: "efold bit_reset (replicate (getNumAtoms mol) True) (map snd as) = Inr nonAcids" and
    k: "efold (keep_nonAcid nonAcids) [] ns = Inr neg0" and
    s: "efold (skipChargeSep_step mol) (replicate (getNumAtoms mol) False) as = Inr skip" and
    n: "negs = neg0 @ filter (\<lambda>pair. \<not> skip ! snd pair) as"
    by (auto simp: build_neg_atoms_def split: sum.splits)
  note br = bit_reset_fold[OF b]
  note kr = keep_nonAcid_fold[OF k]
  from br have len: "length nonAcids = getNumAtoms mol" by simp
  from br show as_range: "\<forall>pair\<in>set as. snd pair < getNumAtoms mol" by simp
  from kr len show ns_range: "\<forall>pair\<in>set ns. snd pair < getNumAtoms mol" by simp
  have "filter (\<lambda>pair. nonAcids ! snd pair) ns = filter (\<lambda>pair. snd pair \<notin> snd ` set as) ns"
  proof (rule filter_cong[OF refl])
    fix pair assume "pair \<in> set ns"
    with ns_range have "snd pair < getNumAtoms mol" by simp
    with br show "nonAcids ! snd pair = (snd pair \<notin> snd ` set as)" by simp
  qed
  with kr have neg0: "neg0 = filter (\<lambda>pair. snd pair \<notin> snd ` set as) ns" by simp
  have "filter (\<lambda>pair. \<not> skip ! snd pair) as = keep_first mol {} as"
  proof (rule skip_fold_keep_first[OF s])
    show "length (replicate (getNumAtoms mol) False) = getNumAtoms mol" by simp
    show "\<forall>nb<getNumAtoms mol. 0 < formalCharge (atoms mol ! nb) \<longrightarrow>
            (replicate (getNumAtoms mol) False ! nb \<longleftrightarrow> nb \<in> {})" by simp
    show "\<forall>i\<in>snd ` set as. \<not> replicate (getNumAtoms mol) False ! i"
      using as_range by auto
    show "\<forall>i\<in>snd ` set as. formalCharge (atoms mol ! i) \<le> 0"
      using assms(3) by auto
    show "distinct (map snd as)" by (rule assms(2))
  qed
  with n neg0 show "negs = filter (\<lambda>pair. snd pair \<notin> snd ` set as) ns @ keep_first mol {} as"
    by simp
qed

lemma neutralizeNegIfPossible_frame:
  assumes "neutralizeNegIfPossible env mol idx = (ok, mol')" and "j \<noteq> idx"
  shows "atoms mol' ! j = atoms mol ! j"
  using assms
  by (auto simp: neutralizeNegIfPossible_def neutralizeNeg_def Let_def atoms_atomUpdatePropertyCache
      split: if_splits)

lemma neutralize_surplus_frame:
  assumes "neutralize_surplus env mol s negs = Inr mol'" and "j \<notin> snd ` set negs"
  shows "atoms mol' ! j = atoms mol ! j"
  using assms
proof (induction negs arbitrary: mol s)
  case Nil
  then show ?case by simp
next
  case (Cons pair rest)
  obtain ok mol1 where r: "neutralizeNegIfPossible env mol (snd pair) = (ok, mol1)"
    by (cases "neutralizeNegIfPossible env mol (snd pair)")
  from Cons.prems(2) have j: "j \<noteq> snd pair" "j \<notin> snd ` set rest" by auto
  note f = neutralizeNegIfPossible_frame[OF r j(1)]
  from Cons.prems(1) r have
    "mol' = mol1 \<or> neutralize_surplus env mol1 (s - 1) rest = Inr mol' \<or>
     neutralize_surplus env mol1 s rest = Inr mol'"
    by (auto split: sum.splits if_splits bool.splits)
  with Cons.IH[OF _ j(2)] f show ?case by auto
qed

lemma neutralize_single:
  assumes "idx < getNumAtoms mol" and "s \<noteq> 0"
    and "\<not> (isEarlyAtom env (atomicNum (atoms mol ! idx)) \<and> getTotalNumHs (atoms mol ! idx) = 0)"
  shows "\<exists>mol'. neutralize_negatives env mol s [(r, idx)] = Inr mol' \<and>
           formalCharge (atoms mol' ! idx) = formalCharge (atoms mol ! idx) + 1"
  using assms
  by (auto simp: neutralize_negatives_def getAtomWithIdx_def neutralizeNegIfPossible_def
      neutralizeNeg_def Let_def atoms_atomUpdatePropertyCache getNumAtoms_def)

lemma keep_first_pair:
  assumes "first_positive_neighbor mol o1 = Some nbr" and "first_positive_neighbor mol o2 = Some nbr"
  shows "keep_first mol {} [(r1, o1), (r2, o2)] = [(r1, o1)]"
  using assms by simp

text \<open>
  Claim C8, as the code has it. The list of negative sites is the \<open>neg\<close> matches that
  are not \<open>neg_acid\<close> matches, followed by the \<open>neg_acid\<close> matches from which those are
  left out whose first positively charged neighbour (the first in the order of
  the neighbour iteration) is also the first positively charged neighbour of an
  earlier \<open>neg_acid\<close> match. (The \<open>neg_acid\<close> pattern matches atoms of negative
  charge, each once.) Hence, for a nitrate-like anion whose two matched oxygens
  have the same first positive neighbour, only the first oxygen is on the list;
  the pass over the list leaves the second oxygen as it is, so at most one of the
  two is neutralized; and the first one is neutralized if the list has no other
  site, the surplus is not zero and the oxygen can take a hydrogen.
\<close>

theorem acid_sites_taken_once:
  assumes "uncharge_accounting env u mol = Inr acc"
    and "distinct (map snd (a_atoms acc))"
    and "\<forall>pair\<in>set (a_atoms acc). formalCharge (atoms mol ! snd pair) \<le> 0"
  shows "neg_atoms acc =
           filter (\<lambda>pair. snd pair \<notin> snd ` set (a_atoms acc)) (n_atoms acc) @
           keep_first mol {} (a_atoms acc) \<and>
         (a_atoms acc = [(r1, o1), (r2, o2)] \<and>
          first_positive_neighbor mol o1 = Some nbr \<and>
          first_positive_neighbor mol o2 = Some nbr \<longrightarrow>
            keep_first mol {} (a_atoms acc) = [(r1, o1)] \<and>
            (\<forall>mol'. neutralize_negatives env mol (initial_neg_surplus u acc) (neg_atoms acc) = Inr mol'
                 \<longrightarrow> atoms mol' ! o2 = atoms mol ! o2) \<and>
            (n_atoms acc = [] \<and> initial_neg_surplus u acc \<noteq> 0 \<and>
             \<not> (isEarlyAtom env (atomicNum (atoms mol ! o1)) \<and> getTotalNumHs (atoms mol ! o1) = 0)
               \<longrightarrow>
               (\<exists>mol'. neutralize_negatives env mol (initial_neg_surplus u acc) (neg_atoms acc) = Inr mol' \<and>
                  formalCharge (atoms mol' ! o1) = formalCharge (atoms mol ! o1) + 1 \<and>
                  atoms mol' ! o2 = atoms mol ! o2)))"
proof -
  note b = build_neg_atoms_Inr[OF uncharge_accounting_Inr(7)[OF assms(1)] assms(2,3)]
  have two: "keep_first mol {} (a_atoms acc) = [(r1, o1)] \<and>
            (\<forall>mol'. neutralize_negatives env mol (initial_neg_surplus u acc) (neg_atoms acc) = Inr mol'
                 \<longrightarrow> atoms mol' ! o2 = atoms mol ! o2) \<and>
            (n_atoms acc = [] \<and> initial_neg_surplus u acc \<noteq> 0 \<and>
             \<not> (isEarlyAtom env (atomicNum (atoms mol ! o1)) \<and> getTotalNumHs (atoms mol ! o1) = 0)
               \<longrightarrow>
               (\<exists>mol'. neutralize_negatives env mol (initial_neg_surplus u acc) (neg_atoms acc) = Inr mol' \<and>
                  formalCharge (atoms mol' ! o1) = formalCharge (atoms mol ! o1) + 1 \<and>
                  atoms mol' ! o2 = atoms mol ! o2))"
    if h: "a_atoms acc = [(r1, o1), (r2, o2)] \<and>
          first_positive_neighbor mol o1 = Some nbr \<and>
          first_positive_neighbor mol o2 = Some nbr"
  proof -
    from h have kf: "keep_first mol {} (a_atoms acc) = [(r1, o1)]"
      by (simp add: keep_first_pair)
    from h assms(2) have ne: "o1 \<noteq> o2" by auto
    from h b(2) have o1: "o1 < getNumAtoms mol" by simp
    from b(1) kf have negs: "neg_atoms acc =
        filter (\<lambda>pair. snd pair \<notin> snd ` set (a_atoms acc)) (n_atoms acc) @ [(r1, o1)]"
      by simp
    have notin: "o2 \<notin> snd ` set (neg_atoms acc)"
      unfolding negs using h ne by auto
    have frame: "atoms mol' ! o2 = atoms mol ! o2"
      if "neutralize_negatives env mol (initial_neg_surplus u acc) (neg_atoms acc) = Inr mol'" for mol'
    proof (cases "initial_neg_surplus u acc = 0")
      case True
      with that show ?thesis by (simp add: neutralize_negatives_def)
    next
      case False
      with that have "neutralize_surplus env mol (initial_neg_surplus u acc) (neg_atoms acc) = Inr mol'"
        by (simp add: neutralize_negatives_def)
      from neutralize_surplus_frame[OF this notin] show ?thesis .
    qed
    have single: "\<exists>mol'. neutralize_negatives env mol (initial_neg_surplus u acc) (neg_atoms acc) = Inr mol' \<and>
                  formalCharge (atoms mol' ! o1) = formalCharge (atoms mol ! o1) + 1 \<and>
                  atoms mol' ! o2 = atoms mol ! o2"
      if c: "n_atoms acc = [] \<and> initial_neg_surplus u acc \<noteq> 0 \<and>
             \<not> (isEarlyAtom env (atomicNum (atoms mol ! o1)) \<and> getTotalNumHs (atoms mol ! o1) = 0)"
    proof -
      from c negs have l: "neg_atoms acc = [(r1, o1)]" by simp
      from c have s: "initial_neg_surplus u acc \<noteq> 0" and
        e: "\<not> (isEarlyAtom env (atomicNum (atoms mol ! o1)) \<and> getTotalNumHs (atoms mol ! o1) = 0)"
        by simp_all
      from neutralize_single[OF o1 s e, of r1] obtain mol' where
        m: "neutralize_negatives env mol (initial_neg_surplus u acc) [(r1, o1)] = Inr mol'"
           "formalCharge (atoms mol' ! o1) = formalCharge (atoms mol ! o1) + 1"
        by blast
      from m(1) l frame have "atoms mol' ! o2 = atoms mol ! o2" by simp
      with m l show ?thesis by auto
    qed
    from kf frame single show ?thesis by blast
  qed
  from b(1) two show ?thesis by blast
qed

lemma example_nitrate_accounting:
  "uncharge_accounting (smarts_env index_ranks) (Uncharger_ctor True False) nitrate =
     Inr \<lparr>p_matches = [], q_matched = 0, needsNeutralization = False,
          atomRanks = [0, 1, 2, 3], n_atoms = [], a_atoms = [(0, 0), (3, 3)],
          neg_atoms = [(0, 0)]\<rparr>"
  by code_simp

theorem acid_sites_taken_once_witness:
  "uncharge_accounting (smarts_env index_ranks) (Uncharger_ctor True False) nitrate =
     Inr \<lparr>p_matches = [], q_matched = 0, needsNeutralization = False,
          atomRanks = [0, 1, 2, 3], n_atoms = [], a_atoms = [(0, 0), (3, 3)],
          neg_atoms = [(0, 0)]\<rparr> \<and>
   first_positive_neighbor nitrate 0 = Some 1 \<and> first_positive_neighbor nitrate 3 = Some 1 \<and>
   keep_first nitrate {} [(0, 0), (3, 3)] = [(0, 0)] \<and>
   (\<exists>mol'. neutralize_negatives (smarts_env index_ranks) nitrate 1 [(0, 0)] = Inr mol' \<and>
      formalCharge (atoms mol' ! 0) = 0 \<and> atoms mol' ! 3 = atoms nitrate ! 3)"
proof -
  let ?acc = "\<lparr>p_matches = [], q_matched = 0, needsNeutralization = False,
          atomRanks = [0, 1, 2, 3], n_atoms = [], a_atoms = [(0, 0), (3, 3)],
          neg_atoms = [(0, 0)]\<rparr>"
  have d: "distinct (map snd (a_atoms ?acc))" by simp
  have c: "\<forall>pair\<in>set (a_atoms ?acc). formalCharge (atoms nitrate ! snd pair) \<le> 0"
    by (simp add: nitrate_def bracket_atom_def)
  have f0: "first_positive_neighbor nitrate 0 = Some 1" by code_simp
  have f3: "first_positive_neighbor nitrate 3 = Some 1" by code_simp
  have s: "initial_neg_surplus (Uncharger_ctor True False) ?acc = 1"
    by (simp add: initial_neg_surplus_def Uncharger_ctor_def)
  have e: "\<not> (isEarlyAtom (smarts_env index_ranks) (atomicNum (atoms nitrate ! 0)) \<and>
              getTotalNumHs (atoms nitrate ! 0) = 0)"
    by (simp add: smarts_env_def nitrate_def bracket_atom_def)
  have c0: "formalCharge (atoms nitrate ! 0) = - 1"
    by (simp add: nitrate_def bracket_atom_def)
  note t = acid_sites_taken_once[OF example_nitrate_accounting d c,
      where ?r1.0 = 0 and ?o1.0 = 0 and ?r2.0 = 3 and ?o2.0 = 3 and nbr = 1]
  from t f0 f3 have k: "keep_first nitrate {} [(0, 0), (3, 3)] = [(0, 0)]"
    by simp
  from t f0 f3 s e
  have "\<exists>mol'. neutralize_negatives (smarts_env index_ranks) nitrate 1 [(0, 0)] = Inr mol' \<and>
      formalCharge (atoms mol' ! 0) = formalCharge (atoms nitrate ! 0) + 1 \<and>
      atoms mol' ! 3 = atoms nitrate ! 3"
    by simp
  with c0 have "\<exists>mol'. neutralize_negatives (smarts_env index_ranks) nitrate 1 [(0, 0)] = Inr mol' \<and>
      formalCharge (atoms mol' ! 0) = 0 \<and> atoms mol' ! 3 = atoms nitrate ! 3"
    by simp
  with example_nitrate_accounting f0 f3 k show ?thesis by (intro conjI)
qed

text \<open>
  Claim C8 as it is written fails on tetramethylammonium nitrate. The two oxygens
  0 and 3 are the \<open>neg_acid\<close> matches and have the positive nitrogen 1 as their
  neighbour; the first is on the list, the second is not. But the quaternary
  nitrogen gives \<open>q_matched = 1\<close>, the surplus is zero, and the call returns the
  molecule as it was: neither of the two oxygens is neutralized.
\<close>

theorem acid_sites_counterexample:
  "uncharge_accounting (smarts_env index_ranks) (Uncharger_ctor True False)
     tetramethylammonium_nitrate =
     Inr \<lparr>p_matches = [], q_matched = 1, needsNeutralization = True,
          atomRanks = [0, 1, 2, 3, 4, 5, 6, 7, 8], n_atoms = [],
          a_atoms = [(0, 0), (3, 3)], neg_atoms = [(0, 0)]\<rparr> \<and>
   first_positive_neighbor tetramethylammonium_nitrate 0 = Some 1 \<and>
   first_positive_neighbor tetramethylammonium_nitrate 3 = Some 1 \<and>
   unchargeInPlace (smarts_env index_ranks) (Uncharger_ctor True False)
     tetramethylammonium_nitrate = Inr tetramethylammonium_nitrate \<and>
   formalCharge (atoms tetramethylammonium_nitrate ! 0) = - 1 \<and>
   formalCharge (atoms tetramethylammonium_nitrate ! 3) = - 1"
proof (intro conjI)
  show "uncharge_accounting (smarts_env index_ranks) (Uncharger_ctor True False)
     tetramethylammonium_nitrate =
     Inr \<lparr>p_matches = [], q_matched = 1, needsNeutralization = True,
          atomRanks = [0, 1, 2, 3, 4, 5, 6, 7, 8], n_atoms = [],
          a_atoms = [(0, 0), (3, 3)], neg_atoms = [(0, 0)]\<rparr>"
    by code_simp
  show "first_positive_neighbor tetramethylammonium_nitrate 0 = Some 1"
    by code_simp
  show "first_positive_neighbor tetramethylammonium_nitrate 3 = Some 1"
    by code_simp
  show "unchargeInPlace (smarts_env index_ranks) (Uncharger_ctor True False)
     tetramethylammonium_nitrate = Inr tetramethylammonium_nitrate"
    by code_simp
  show "formalCharge (atoms tetramethylammonium_nitrate ! 0) = - 1"
    by (simp add: tetramethylammonium_nitrate_def bracket_atom_def)
  show "formalCharge (atoms tetramethylammonium_nitrate ! 3) = - 1"
    by (simp add: tetramethylammonium_nitrate_def bracket_atom_def)
qed

subsection \<open>A second call\<close>










































text \<open>
  Neither condition can be left out. The counterexample below has no atom with a
  charge above \<open>+1\<close>, and a cation bonded to two anions. A chloride ion beside a
  sodium ion and a doubly charged cation with one hydrogen has no bond at all:
  the first call takes one charge and the hydrogen from the dication and leaves
  the chloride, because the sodium ion balances it; the second call counts the
  cation that is left as a second cation without hydrogens, and neutralizes the
  chloride. Nor is it enough to keep the cations that carry hydrogen away from
  the anions: in the perchlorate ion no atom carries a hydrogen; the four
  oxygens are acid sites with the same positive neighbour, so each call takes
  the first one that is still charged.
\<close>

lemma uncharge_twice_conditions_needed:
  "multiple_charges_bare diolate_salt \<and> \<not> ions_apart diolate_salt \<and>
   \<not> multiple_charges_bare chloride_salt \<and> ions_apart chloride_salt \<and>
   unchargeInPlace (smarts_env index_ranks) (Uncharger_ctor True False) chloride_salt =
     Inr chloride_salt_once \<and>
   unchargeInPlace (smarts_env index_ranks) (Uncharger_ctor True False) chloride_salt_once =
     Inr chloride_salt_twice \<and>
   charge_state chloride_salt_twice \<noteq> charge_state chloride_salt_once \<and>
   multiple_charges_bare perchlorate \<and> \<not> ions_apart perchlorate \<and>
   unchargeInPlace (smarts_env index_ranks) (Uncharger_ctor True False) perchlorate =
     Inr perchlorate_once \<and>
   unchargeInPlace (smarts_env index_ranks) (Uncharger_ctor True False) perchlorate_once =
     Inr perchlorate_twice \<and>
   charge_state perchlorate_twice \<noteq> charge_state perchlorate_once"
proof (intro conjI)
  show "multiple_charges_bare diolate_salt" by code_simp
  show "\<not> ions_apart diolate_salt" by code_simp
  show "\<not> multiple_charges_bare chloride_salt" by code_simp
  show "ions_apart chloride_salt" by code_simp
  show "unchargeInPlace (smarts_env index_ranks) (Uncharger_ctor True False) chloride_salt =
     Inr chloride_salt_once"
    by code_simp
  show "unchargeInPlace (smarts_env index_ranks) (Uncharger_ctor True False) chloride_salt_once =
     Inr chloride_salt_twice"
    by code_simp
  show "charge_state chloride_salt_twice \<noteq> charge_state chloride_salt_once"
    by (simp add: charge_state_def chloride_salt_twice_def chloride_salt_once_def bracket_atom_def)
  show "multiple_charges_bare perchlorate" by code_simp
  show "\<not> ions_apart perchlorate" by code_simp
  show "unchargeInPlace (smarts_env index_ranks) (Uncharger_ctor True False) perchlorate =
     Inr perchlorate_once"
    by code_simp
  show "unchargeInPlace (smarts_env index_ranks) (Uncharger_ctor True False) perchlorate_once =
     Inr perchlorate_twice"
    by code_simp
  show "charge_state perchlorate_twice \<noteq> charge_state perchlorate_once"
    by (simp add: charge_state_def perchlorate_twice_def perchlorate_once_def bracket_atom_def)
qed


end
